theory Spec2Isabelle
  imports Complex_Main
begin

section \<open>Data model of the Automation component\<close>

text \<open>
  The development embeds the \<open>Automation\<close> component (retention scan, exclusion
  handlers and the deletion run). A \<open>JellyfinItem\<close> carries the fields the component
  reads. \<open>DateCreated\<close> holds the value of \<open>new Date(item.DateCreated).getTime()\<close>
  in milliseconds, \<open>None\<close> when the string is not a date (the code then computes with
  NaN). \<open>Tmdb\<close> and \<open>Tvdb\<close> hold \<open>item.ProviderIds?.Tmdb\<close> and
  \<open>item.ProviderIds?.Tvdb\<close>, \<open>None\<close> when the expression is undefined.
\<close>

record JellyfinItem =
  ItemId :: string
  ItemName :: string
  ItemType :: string
  DateCreated :: "int option"
  SeriesId :: "string option"
  SeriesName :: "string option"
  Tmdb :: "string option"
  Tvdb :: "string option"

record RadarrMovie =
  movie_id :: int
  tmdbId :: int

record SonarrSeries =
  series_id :: int
  tvdbId :: int

record SonarrEpisode =
  seasonNumber :: int
  hasFile :: bool
  episodeFileId :: int

record conn =
  url :: string
  apiKey :: string

text \<open>
  A retention threshold of the settings is a number or missing; \<open>None\<close> stands for
  every value without a numeric reading (undefined, null, NaN), all of them falsy. The
  rational is the number as it is written in the stored settings; the value the code
  computes with is the double nearest to it (\<open>cfgMovieDays\<close>, \<open>cfgSeasonDays\<close>).
\<close>

record automation =
  cfg_movieRetentionDays :: "rat option"
  cfg_tvSeasonRetentionDays :: "rat option"

record JccSettings =
  jellyfin :: "conn option"
  radarr :: "conn option"
  sonarr :: "conn option"
  automation :: "automation option"

text \<open>The arguments of the translation function \<open>t(key, params)\<close>.\<close>

datatype pval = PStr string | PNum int | PUndef

type_synonym params = "(string \<times> pval) list"

text \<open>Requests sent to the three services, in the order they are issued.\<close>

datatype call =
    GetItems "string list"
  | GetItemsByIds "string list"
  | GetRadarrMovies
  | DeleteRadarrMovie int
  | GetSonarrSeries
  | GetSonarrEpisodes int
  | DeleteSonarrEpisodeFile int

text \<open>
  Everything the component takes from outside: the settings context, the translation
  function, the two uses of \<open>new Date()\<close>, and the service functions. The date of a
  log line is read inside the updater given to \<open>setLogs\<close>, whenever that runs:
  \<open>clock k\<close> is the time in milliseconds read for the k-th line added to the log. The
  date \<open>now\<close> of a scan is read in the body of \<open>handleScan\<close> once the catalog has
  answered: \<open>scanNow cs\<close> is that time for the scan whose requests so far are \<open>cs\<close>
  (every scan adds a request, which tells the scans apart). Nothing relates the two
  readings. A service function sees the requests
  issued so far, so its answer may depend on earlier deletions; \<open>Inl msg\<close> and
  \<open>Some msg\<close> stand for a rejected promise whose message, after
  \<open>err instanceof Error ? err.message : String(err)\<close>, is \<open>msg\<close>.
\<close>

record env =
  settings :: "JccSettings option"
  t :: "string \<Rightarrow> params \<Rightarrow> string"
  clock :: "nat \<Rightarrow> int"
  scanNow :: "call list \<Rightarrow> int"
  toLocaleTimeString :: "int \<Rightarrow> string"
  getItems :: "call list \<Rightarrow> conn \<Rightarrow> string list \<Rightarrow> string + JellyfinItem list"
  getItemsByIds :: "call list \<Rightarrow> conn option \<Rightarrow> string list \<Rightarrow> string + JellyfinItem list"
  getRadarrMovies :: "call list \<Rightarrow> conn \<Rightarrow> string + RadarrMovie list"
  deleteRadarrMovie :: "call list \<Rightarrow> conn \<Rightarrow> int \<Rightarrow> string option"
  getSonarrSeries :: "call list \<Rightarrow> conn \<Rightarrow> string + SonarrSeries list"
  getSonarrEpisodes :: "call list \<Rightarrow> conn \<Rightarrow> int \<Rightarrow> string + SonarrEpisode list"
  deleteSonarrEpisodeFile :: "call list \<Rightarrow> conn \<Rightarrow> int \<Rightarrow> string option"

text \<open>
  The component's React state, together with the requests issued (\<open>calls\<close>) and the
  number of lines added to the log so far (\<open>ticks\<close>). A JavaScript \<open>Set\<close> of strings is the list
  of its members in insertion order.
\<close>

record state =
  isLoading :: bool
  deletableItems :: "JellyfinItem list"
  selectedItems :: "string list"
  logs :: "string list"
  error :: "string option"
  isModalOpen :: bool
  exclusions :: "string list"
  calls :: "call list"
  ticks :: nat

section \<open>JavaScript helpers\<close>

definition set_add :: "'a list \<Rightarrow> 'a \<Rightarrow> 'a list" where
  "set_add S x = (if x \<in> set S then S else S @ [x])"

definition new_Set :: "'a list \<Rightarrow> 'a list" where
  "new_Set xs = foldl set_add [] xs"


definition isDigit :: "char \<Rightarrow> bool" where
  "isDigit c = (c \<in> set ''0123456789'')"

definition digitValue :: "char \<Rightarrow> nat option" where
  "digitValue c =
     (if c \<in> set ''0123456789'' then Some (of_char c - 48)
      else if c \<in> set ''abcdefghijklmnopqrstuvwxyz'' then Some (of_char c - 87)
      else if c \<in> set ''ABCDEFGHIJKLMNOPQRSTUVWXYZ'' then Some (of_char c - 55)
      else None)"

definition isRadixDigit :: "nat \<Rightarrow> char \<Rightarrow> bool" where
  "isRadixDigit r c = (case digitValue c of None \<Rightarrow> False | Some d \<Rightarrow> d < r)"

definition isWhiteSpace :: "char \<Rightarrow> bool" where
  "isWhiteSpace c = (of_char c \<in> {9, 10, 11, 12, 13, 32, 160 :: nat})"

definition digitsValue :: "nat \<Rightarrow> string \<Rightarrow> nat" where
  "digitsValue r ds = foldl (\<lambda>acc c. acc * r + (case digitValue c of None \<Rightarrow> 0 | Some d \<Rightarrow> d)) 0 ds"

text \<open>
  \<open>parseInt(s)\<close> with no radix: leading white space is skipped, a sign is read, a
  prefix \<open>0x\<close> or \<open>0X\<close> selects radix 16, and the longest run of digits is read;
  with no digit the result is NaN, here \<open>None\<close>. The result is the exact integer, which is
  the JavaScript number for magnitudes below \<open>2^53\<close>.
\<close>

definition parseInt :: "string \<Rightarrow> int option" where
  "parseInt str =
     (let s = dropWhile isWhiteSpace str;
          neg = (case s of c # _ \<Rightarrow> c = CHR ''-'' | [] \<Rightarrow> False);
          s1 = (case s of c # cs \<Rightarrow> if c = CHR ''+'' \<or> c = CHR ''-'' then cs else s | [] \<Rightarrow> s);
          hex = (case s1 of a # b # _ \<Rightarrow> a = CHR ''0'' \<and> (b = CHR ''x'' \<or> b = CHR ''X'') | _ \<Rightarrow> False);
          r = (if hex then 16 else 10);
          s2 = (if hex then drop 2 s1 else s1);
          ds = takeWhile (isRadixDigit r) s2
      in if ds = [] then None
         else Some (if neg then - int (digitsValue r ds) else int (digitsValue r ds)))"

text \<open>
  JavaScript numbers are doubles. A finite double is modelled by the rational it equals,
  and \<open>toDouble x\<close> is the double nearest to \<open>x\<close>, ties going to the even
  significand: \<open>exponentOf a\<close> is the \<open>e\<close> with \<open>2^e \<le> a < 2^(e+1)\<close>, the
  spacing of the doubles around \<open>a\<close> is \<open>2^(e - 52)\<close>, and below \<open>2^(-1022)\<close> it
  stays \<open>2^(-1074)\<close>. Magnitudes from \<open>2^1024\<close> on, where a double overflows, do not
  occur: a quotient of two dates is below \<open>2^28\<close>.
\<close>

function bitlen :: "int \<Rightarrow> int" where
  "bitlen n = (if n \<le> 0 then 0 else 1 + bitlen (n div 2))"
  by pat_completeness auto
termination
  by (relation "measure nat") auto

declare bitlen.simps [simp del]

definition pow2 :: "int \<Rightarrow> rat" where
  "pow2 k = (if 0 \<le> k then of_int (2 ^ nat k) else 1 / of_int (2 ^ nat (- k)))"

definition exponentOf :: "rat \<Rightarrow> int" where
  "exponentOf a =
     (let e0 = bitlen (fst (quotient_of a)) - bitlen (snd (quotient_of a))
      in if pow2 e0 \<le> a then e0 else e0 - 1)"

definition roundHalfEven :: "rat \<Rightarrow> int" where
  "roundHalfEven m =
     (let f = \<lfloor>m\<rfloor>; r = m - of_int f
      in if r < 1 / 2 then f else if 1 / 2 < r then f + 1 else if even f then f else f + 1)"

definition toDouble :: "rat \<Rightarrow> rat" where
  "toDouble x =
     (if x = 0 then 0
      else let a = \<bar>x\<bar>;
               e = max (exponentOf a) (- 1022);
               ulp = pow2 (e - 52);
               n = roundHalfEven (a / ulp)
           in (if x < 0 then - 1 else 1) * of_int n * ulp)"

text \<open>\<open>name.match(/\d+/)\<close>: the first run of decimal digits, \<open>None\<close> for null.\<close>

definition matchDigits :: "string \<Rightarrow> string option" where
  "matchDigits name =
     (let ds = takeWhile isDigit (dropWhile (\<lambda>c. \<not> isDigit c) name)
      in if ds = [] then None else Some ds)"

text \<open>A string that is defined and not empty, the truthy strings.\<close>

definition truthy :: "string option \<Rightarrow> string option" where
  "truthy v = (case v of None \<Rightarrow> None | Some s \<Rightarrow> if s = [] then None else Some s)"

text \<open>\<open>c?.url && c?.apiKey\<close>: the connection when both are truthy.\<close>

definition configured :: "conn option \<Rightarrow> conn option" where
  "configured c = (case c of None \<Rightarrow> None | Some r \<Rightarrow> if url r \<noteq> [] \<and> apiKey r \<noteq> [] then Some r else None)"

definition pstr :: "string option \<Rightarrow> pval" where
  "pstr v = (case v of None \<Rightarrow> PUndef | Some s \<Rightarrow> PStr s)"

section \<open>Retention thresholds and the log\<close>

text \<open>
  \<open>cfgMovieDays\<close> is \<open>settingsCtx?.settings?.automation?.movieRetentionDays\<close>, a
  double, and \<open>movieRetentionDays\<close> is that value \<open>|| 7\<close>; likewise for seasons
  with 28.
\<close>

definition orDefault :: "rat option \<Rightarrow> rat \<Rightarrow> rat" where
  "orDefault v d = (case v of None \<Rightarrow> d | Some x \<Rightarrow> if x = 0 then d else x)"

definition cfgMovieDays :: "JccSettings option \<Rightarrow> rat option" where
  "cfgMovieDays ctx =
     (case ctx of None \<Rightarrow> None
      | Some st \<Rightarrow> (case automation st of None \<Rightarrow> None
                    | Some a \<Rightarrow> map_option toDouble (cfg_movieRetentionDays a)))"

definition cfgSeasonDays :: "JccSettings option \<Rightarrow> rat option" where
  "cfgSeasonDays ctx =
     (case ctx of None \<Rightarrow> None
      | Some st \<Rightarrow> (case automation st of None \<Rightarrow> None
                    | Some a \<Rightarrow> map_option toDouble (cfg_tvSeasonRetentionDays a)))"

definition movieRetentionDays :: "JccSettings option \<Rightarrow> rat" where
  "movieRetentionDays ctx = orDefault (cfgMovieDays ctx) 7"

definition tvSeasonRetentionDays :: "JccSettings option \<Rightarrow> rat" where
  "tvSeasonRetentionDays ctx = orDefault (cfgSeasonDays ctx) 28"

definition stamp :: "env \<Rightarrow> nat \<Rightarrow> string" where
  "stamp e k = ''['' @ toLocaleTimeString e (clock e k) @ ''] ''"

definition addLog :: "env \<Rightarrow> string \<Rightarrow> state \<Rightarrow> state" where
  "addLog e message s = s\<lparr>logs := (stamp e (ticks s) @ message) # logs s, ticks := Suc (ticks s)\<rparr>"

section \<open>The retention scan\<close>

text \<open>
  \<open>ageInDays\<close> is the double the code computes: the difference of the two times is
  rounded, and so is its quotient by the milliseconds of a day. NaN is \<open>None\<close>, and
  every comparison with NaN is false.
\<close>

definition ageInDays :: "int \<Rightarrow> int option \<Rightarrow> rat option" where
  "ageInDays now dateCreated =
     (case dateCreated of None \<Rightarrow> None
      | Some d \<Rightarrow> Some (toDouble (toDouble (of_int (now - d)) / (1000 * 3600 * 24))))"

definition gt :: "rat option \<Rightarrow> rat \<Rightarrow> bool" where
  "gt a b = (case a of None \<Rightarrow> False | Some x \<Rightarrow> x > b)"

definition scanFilter :: "string list \<Rightarrow> rat \<Rightarrow> rat \<Rightarrow> int \<Rightarrow> JellyfinItem \<Rightarrow> bool" where
  "scanFilter excl movieDays seasonDays now item =
     (if ItemId item \<in> set excl then False
      else let age = ageInDays now (DateCreated item)
           in if ItemType item = ''Movie'' \<and> gt age movieDays then True
              else if ItemType item = ''Season'' \<and> gt age seasonDays then True
              else False)"

definition handleScan :: "env \<Rightarrow> state \<Rightarrow> state" where
  "handleScan e s =
     (case (case settings e of None \<Rightarrow> None | Some st \<Rightarrow> jellyfin st) of
        None \<Rightarrow> s\<lparr>error := Some (t e ''automationJellyfinNotConfigured'' [])\<rparr>
      | Some jf \<Rightarrow>
          let s1 = s\<lparr>isLoading := True, error := None, deletableItems := [], selectedItems := []\<rparr>;
              s2 = addLog e (t e ''logScanStarted'' []) s1;
              s3 = s2\<lparr>calls := calls s2 @ [GetItems [''Movie'', ''Season'']]\<rparr>;
              s4 = (case getItems e (calls s2) jf [''Movie'', ''Season''] of
                      Inl errorMessage \<Rightarrow>
                        addLog e (t e ''logError'' [(''error'', PStr errorMessage)])
                          (s3\<lparr>error := Some (t e ''logScanError'' [(''error'', PStr errorMessage)])\<rparr>)
                    | Inr allItems \<Rightarrow>
                        let s5 = addLog e (t e ''logScanFoundItems'' [(''count'', PNum (int (length allItems)))]) s3;
                            now = scanNow e (calls s5);
                            itemsToFilter =
                              filter (scanFilter (exclusions s) (movieRetentionDays (settings e))
                                        (tvSeasonRetentionDays (settings e)) now) allItems;
                            s7 = s5\<lparr>deletableItems := itemsToFilter,
                                    selectedItems := new_Set (map ItemId itemsToFilter)\<rparr>
                        in addLog e (t e ''logScanComplete'' [(''count'', PNum (int (length itemsToFilter)))]) s7)
          in s4\<lparr>isLoading := False\<rparr>)"

section \<open>Exclusion handlers\<close>



section \<open>The deletion run\<close>

text \<open>
  The loop state is the component state and \<open>successCount\<close>. A step of the
  try block yields the message of the exception it throws, if any, and the state
  reached at that point.
\<close>

type_synonym loopState = "state \<times> nat"

definition issue :: "call \<Rightarrow> state \<Rightarrow> state" where
  "issue c s = s\<lparr>calls := calls s @ [c]\<rparr>"

text \<open>The inner loop over \<open>episodesToDelete\<close>, with its own try and catch.\<close>

fun deleteEpisodes :: "env \<Rightarrow> conn \<Rightarrow> JellyfinItem \<Rightarrow> SonarrEpisode list \<Rightarrow> state \<times> bool \<Rightarrow> state \<times> bool" where
  "deleteEpisodes e sn item [] (s, episodeDeletionSuccess) = (s, episodeDeletionSuccess)"
| "deleteEpisodes e sn item (episode # rest) (s, episodeDeletionSuccess) =
     (case deleteSonarrEpisodeFile e (calls s) sn (episodeFileId episode) of
        None \<Rightarrow>
          deleteEpisodes e sn item rest
            (issue (DeleteSonarrEpisodeFile (episodeFileId episode)) s, episodeDeletionSuccess)
      | Some episodeErrorMessage \<Rightarrow>
          deleteEpisodes e sn item rest
            (addLog e (t e ''logDeletionFailedEpisode''
                        [(''seriesName'', pstr (SeriesName item)), (''name'', PStr (ItemName item)),
                         (''error'', PStr episodeErrorMessage)])
               (issue (DeleteSonarrEpisodeFile (episodeFileId episode)) s), False))"

definition seasonParams :: "JellyfinItem \<Rightarrow> params" where
  "seasonParams item = [(''seriesName'', pstr (SeriesName item)), (''name'', PStr (ItemName item))]"

definition deleteMovie ::
  "env \<Rightarrow> JccSettings \<Rightarrow> RadarrMovie list \<Rightarrow> JellyfinItem \<Rightarrow> loopState \<Rightarrow> string option \<times> loopState" where
  "deleteMovie e st radarrMovies item ls =
     (case ls of (s, successCount) \<Rightarrow>
      (case configured (radarr st) of
         None \<Rightarrow> (None, addLog e (t e ''logDeletionFailedRadarr'' [(''name'', PStr (ItemName item))]) s, successCount)
       | Some rd \<Rightarrow>
          (case truthy (Tmdb item) of
             None \<Rightarrow> (None, addLog e (t e ''logDeletionFailedTmdb'' [(''name'', PStr (ItemName item))]) s, successCount)
           | Some tmdb \<Rightarrow>
              (case find (\<lambda>m. Some (tmdbId m) = parseInt tmdb) radarrMovies of
                 Some radarrMovie \<Rightarrow>
                   (case deleteRadarrMovie e (calls s) rd (movie_id radarrMovie) of
                      Some err \<Rightarrow> (Some err, issue (DeleteRadarrMovie (movie_id radarrMovie)) s, successCount)
                    | None \<Rightarrow>
                        (None,
                         addLog e (t e ''logDeletionSuccessRadarr'' [(''name'', PStr (ItemName item))])
                           (issue (DeleteRadarrMovie (movie_id radarrMovie)) s),
                         successCount + 1))
               | None \<Rightarrow>
                   (None, addLog e (t e ''logDeletionInfoRadarr'' [(''name'', PStr (ItemName item))]) s,
                    successCount)))))"

text \<open>
  \<open>seriesIdToProviderIdMap.get(item.SeriesId!)\<close>: a \<open>Map\<close> built from pairs keeps
  the last value of a key; an undefined key or value reads as undefined.
\<close>

definition mapGet :: "(string \<times> string option) list \<Rightarrow> string option \<Rightarrow> string option" where
  "mapGet pairs k =
     (case k of None \<Rightarrow> None
      | Some key \<Rightarrow> (case map_of (rev pairs) key of None \<Rightarrow> None | Some v \<Rightarrow> v))"

definition deleteSeason ::
  "env \<Rightarrow> JccSettings \<Rightarrow> SonarrSeries list \<Rightarrow> (string \<times> string option) list \<Rightarrow> JellyfinItem \<Rightarrow>
   loopState \<Rightarrow> string option \<times> loopState" where
  "deleteSeason e st sonarrSeries seriesIdToProviderIdMap item ls =
     (case ls of (s, successCount) \<Rightarrow>
      (case configured (sonarr st) of
         None \<Rightarrow> (None, addLog e (t e ''logDeletionFailedSonarr'' (seasonParams item)) s, successCount)
       | Some sn \<Rightarrow>
          (case truthy (mapGet seriesIdToProviderIdMap (SeriesId item)) of
             None \<Rightarrow> (None, addLog e (t e ''logDeletionFailedTvdb'' (seasonParams item)) s, successCount)
           | Some tvdb \<Rightarrow>
              (case find (\<lambda>x. Some (tvdbId x) = parseInt tvdb) sonarrSeries of
                 None \<Rightarrow>
                   (None,
                    addLog e (t e ''logDeletionInfoSonarrSeries'' [(''seriesName'', pstr (SeriesName item))]) s,
                    successCount)
               | Some sonarrSerie \<Rightarrow>
                   (case getSonarrEpisodes e (calls s) sn (series_id sonarrSerie) of
                      Inl err \<Rightarrow> (Some err, issue (GetSonarrEpisodes (series_id sonarrSerie)) s, successCount)
                    | Inr episodes \<Rightarrow>
                       (let s1 = issue (GetSonarrEpisodes (series_id sonarrSerie)) s in
                        case matchDigits (ItemName item) of
                          None \<Rightarrow>
                            (None,
                             addLog e (t e ''logDeletionFailedSeasonNumber'' [(''name'', PStr (ItemName item))]) s1,
                             successCount)
                        | Some seasonNumberMatch \<Rightarrow>
                           (let episodesToDelete =
                                  filter (\<lambda>ep. Some (seasonNumber ep) = parseInt seasonNumberMatch \<and> hasFile ep)
                                    episodes
                            in if episodesToDelete = []
                               then (None, addLog e (t e ''logDeletionInfoSonarrFiles'' (seasonParams item)) s1,
                                     successCount + 1)
                               else (case deleteEpisodes e sn item episodesToDelete (s1, True) of
                                       (s2, episodeDeletionSuccess) \<Rightarrow>
                                         if episodeDeletionSuccess
                                         then (None,
                                               addLog e (t e ''logDeletionSuccessSonarr''
                                                          ((''count'', PNum (int (length episodesToDelete)))
                                                           # seasonParams item)) s2,
                                               successCount + 1)
                                         else (None,
                                               addLog e (t e ''logDeletionFailedSonarrMulti'' (seasonParams item)) s2,
                                               successCount)))))))))"

text \<open>The body of \<open>for (const item of itemsToDelete)\<close>.\<close>

definition deleteItem ::
  "env \<Rightarrow> JccSettings \<Rightarrow> RadarrMovie list \<Rightarrow> SonarrSeries list \<Rightarrow> (string \<times> string option) list \<Rightarrow>
   JellyfinItem \<Rightarrow> loopState \<Rightarrow> string option \<times> loopState" where
  "deleteItem e st radarrMovies sonarrSeries seriesIdToProviderIdMap item ls =
     (if ItemType item = ''Movie'' then deleteMovie e st radarrMovies item ls
      else if ItemType item = ''Season'' then deleteSeason e st sonarrSeries seriesIdToProviderIdMap item ls
      else (None, ls))"

text \<open>The loop: an exception leaves it at once, with the items after it untouched.\<close>

fun deleteItems ::
  "env \<Rightarrow> JccSettings \<Rightarrow> RadarrMovie list \<Rightarrow> SonarrSeries list \<Rightarrow> (string \<times> string option) list \<Rightarrow>
   JellyfinItem list \<Rightarrow> loopState \<Rightarrow> string option \<times> loopState" where
  "deleteItems e st radarrMovies sonarrSeries pm [] ls = (None, ls)"
| "deleteItems e st radarrMovies sonarrSeries pm (item # rest) ls =
     (case deleteItem e st radarrMovies sonarrSeries pm item ls of
        (Some err, ls') \<Rightarrow> (Some err, ls')
      | (None, ls') \<Rightarrow> deleteItems e st radarrMovies sonarrSeries pm rest ls')"

text \<open>The three requests before the loop; each is skipped when it has no target.\<close>

definition fetchRadarrMovies :: "env \<Rightarrow> JccSettings \<Rightarrow> state \<Rightarrow> (string + RadarrMovie list) \<times> state" where
  "fetchRadarrMovies e st s =
     (case configured (radarr st) of
        None \<Rightarrow> (Inr [], s)
      | Some rd \<Rightarrow> (getRadarrMovies e (calls s) rd, issue GetRadarrMovies s))"

definition fetchSonarrSeries :: "env \<Rightarrow> JccSettings \<Rightarrow> state \<Rightarrow> (string + SonarrSeries list) \<times> state" where
  "fetchSonarrSeries e st s =
     (case configured (sonarr st) of
        None \<Rightarrow> (Inr [], s)
      | Some sn \<Rightarrow> (getSonarrSeries e (calls s) sn, issue GetSonarrSeries s))"

definition parentSeriesIds :: "JellyfinItem list \<Rightarrow> string list" where
  "parentSeriesIds itemsToDelete =
     (let seasonItems = filter (\<lambda>i. ItemType i = ''Season'') itemsToDelete
      in new_Set (concat (map (\<lambda>i. case truthy (SeriesId i) of None \<Rightarrow> [] | Some x \<Rightarrow> [x]) seasonItems)))"

definition fetchParentSeries ::
  "env \<Rightarrow> JccSettings \<Rightarrow> string list \<Rightarrow> state \<Rightarrow> (string + JellyfinItem list) \<times> state" where
  "fetchParentSeries e st seriesIds s =
     (if length seriesIds > 0
      then (getItemsByIds e (calls s) (jellyfin st) seriesIds, issue (GetItemsByIds seriesIds) s)
      else (Inr [], s))"

text \<open>The try block of \<open>handleDelete\<close>.\<close>

definition deleteBatch :: "env \<Rightarrow> JccSettings \<Rightarrow> JellyfinItem list \<Rightarrow> loopState \<Rightarrow> string option \<times> loopState" where
  "deleteBatch e st itemsToDelete ls =
     (case ls of (s, successCount) \<Rightarrow>
      (case fetchRadarrMovies e st s of
         (Inl err, s1) \<Rightarrow> (Some err, s1, successCount)
       | (Inr radarrMovies, s1) \<Rightarrow>
          (case fetchSonarrSeries e st s1 of
             (Inl err, s2) \<Rightarrow> (Some err, s2, successCount)
           | (Inr sonarrSeries, s2) \<Rightarrow>
              (case fetchParentSeries e st (parentSeriesIds itemsToDelete) s2 of
                 (Inl err, s3) \<Rightarrow> (Some err, s3, successCount)
               | (Inr jellyfinParentSeries, s3) \<Rightarrow>
                   deleteItems e st radarrMovies sonarrSeries
                     (map (\<lambda>x. (ItemId x, Tvdb x)) jellyfinParentSeries) itemsToDelete (s3, successCount)))))"

definition handleDelete :: "env \<Rightarrow> state \<Rightarrow> state" where
  "handleDelete e s =
     (case settings e of
        None \<Rightarrow> s
      | Some st \<Rightarrow>
          if length (selectedItems s) = 0 then s
          else
            let s1 = s\<lparr>isModalOpen := False, isLoading := True\<rparr>;
                s2 = addLog e (t e ''logDeletionStarted'' [(''count'', PNum (int (length (selectedItems s))))]) s1;
                itemsToDelete = filter (\<lambda>item. ItemId item \<in> set (selectedItems s)) (deletableItems s)
            in case deleteBatch e st itemsToDelete (s2, 0) of
                 (thrown, s3, successCount) \<Rightarrow>
                   let s4 = (case thrown of
                               None \<Rightarrow> s3
                             | Some errorMessage \<Rightarrow>
                                 addLog e (t e ''logError'' [(''error'', PStr errorMessage)])
                                   (s3\<lparr>error := Some (t e ''logDeletionCriticalError''
                                                        [(''error'', PStr errorMessage)])\<rparr>));
                       s5 = addLog e (t e ''logDeletionComplete''
                                       [(''successCount'', PNum (int successCount)),
                                        (''total'', PNum (int (length itemsToDelete)))]) s4
                   in handleScan e (s5\<lparr>isLoading := False\<rparr>))"

section \<open>Concrete scenarios\<close>

text \<open>
  A translation function that prints the key and every argument, a clock that stands
  still, and services that answer from fixed tables; \<open>failMovies\<close> and
  \<open>failFiles\<close> list the record and file identifiers whose deletion is rejected.
\<close>

fun showNat :: "nat \<Rightarrow> string" where
  "showNat n = (if n < 10 then [''0123456789'' ! n] else showNat (n div 10) @ [''0123456789'' ! (n mod 10)])"

definition showPval :: "pval \<Rightarrow> string" where
  "showPval v =
     (case v of PStr s \<Rightarrow> s
      | PNum i \<Rightarrow> (if i < 0 then ''-'' @ showNat (nat (- i)) else showNat (nat i))
      | PUndef \<Rightarrow> ''undefined'')"

definition tShow :: "string \<Rightarrow> params \<Rightarrow> string" where
  "tShow key ps = key @ concat (map (\<lambda>(k, v). '' '' @ k @ ''='' @ showPval v) ps)"

definition nowMs :: int where
  "nowMs = 1700000000000"

definition daysAgo :: "int \<Rightarrow> int option" where
  "daysAgo d = Some (nowMs - d * 86400000)"

definition settings0 :: JccSettings where
  "settings0 =
     \<lparr>jellyfin = Some \<lparr>url = ''http://jellyfin'', apiKey = ''j''\<rparr>,
      radarr = Some \<lparr>url = ''http://radarr'', apiKey = ''r''\<rparr>,
      sonarr = Some \<lparr>url = ''http://sonarr'', apiKey = ''s''\<rparr>,
      automation = Some \<lparr>cfg_movieRetentionDays = Some 7, cfg_tvSeasonRetentionDays = Some 28\<rparr>\<rparr>"

definition scenario ::
  "JellyfinItem list \<Rightarrow> RadarrMovie list \<Rightarrow> int list \<Rightarrow> JellyfinItem list \<Rightarrow> SonarrSeries list \<Rightarrow>
   SonarrEpisode list \<Rightarrow> int list \<Rightarrow> env" where
  "scenario items movies failMovies parents series episodes failFiles =
     \<lparr>settings = Some settings0,
      t = tShow,
      clock = (\<lambda>k. nowMs),
      scanNow = (\<lambda>cs. nowMs),
      toLocaleTimeString = (\<lambda>ms. ''12:00:00''),
      getItems = (\<lambda>cs c types. Inr items),
      getItemsByIds = (\<lambda>cs c ids. Inr (filter (\<lambda>x. ItemId x \<in> set ids) parents)),
      getRadarrMovies = (\<lambda>cs c. Inr movies),
      deleteRadarrMovie = (\<lambda>cs c i. if i \<in> set failMovies then Some ''boom'' else None),
      getSonarrSeries = (\<lambda>cs c. Inr series),
      getSonarrEpisodes = (\<lambda>cs c i. Inr episodes),
      deleteSonarrEpisodeFile = (\<lambda>cs c i. if i \<in> set failFiles then Some ''boom'' else None)\<rparr>"

definition initialState :: state where
  "initialState =
     \<lparr>isLoading = False, deletableItems = [], selectedItems = [], logs = [], error = None,
      isModalOpen = False, exclusions = [], calls = [], ticks = 0\<rparr>"

definition movie :: "string \<Rightarrow> string \<Rightarrow> int \<Rightarrow> string \<Rightarrow> JellyfinItem" where
  "movie i name days tmdb =
     \<lparr>ItemId = i, ItemName = name, ItemType = ''Movie'', DateCreated = daysAgo days,
      SeriesId = None, SeriesName = None, Tmdb = Some tmdb, Tvdb = None\<rparr>"

definition season2 :: JellyfinItem where
  "season2 =
     \<lparr>ItemId = ''s2'', ItemName = ''Season 2'', ItemType = ''Season'', DateCreated = daysAgo 40,
      SeriesId = Some ''ser1'', SeriesName = Some ''Show'', Tmdb = None, Tvdb = None\<rparr>"

definition show1 :: JellyfinItem where
  "show1 =
     \<lparr>ItemId = ''ser1'', ItemName = ''Show'', ItemType = ''Series'', DateCreated = daysAgo 90,
      SeriesId = None, SeriesName = None, Tmdb = None, Tvdb = Some ''555''\<rparr>"

definition episodes2 :: "SonarrEpisode list" where
  "episodes2 =
     [\<lparr>seasonNumber = 2, hasFile = True, episodeFileId = 21\<rparr>,
      \<lparr>seasonNumber = 1, hasFile = True, episodeFileId = 11\<rparr>,
      \<lparr>seasonNumber = 2, hasFile = True, episodeFileId = 22\<rparr>,
      \<lparr>seasonNumber = 2, hasFile = False, episodeFileId = 0\<rparr>]"

definition seasonScenario :: "SonarrEpisode list \<Rightarrow> int list \<Rightarrow> env" where
  "seasonScenario episodes failFiles =
     scenario [season2] [] [] [show1] [\<lparr>series_id = 9, tvdbId = 555\<rparr>] episodes failFiles"

definition threeMovies :: env where
  "threeMovies =
     scenario [movie ''a'' ''A'' 10 ''101'', movie ''b'' ''B'' 10 ''102'', movie ''c'' ''C'' 10 ''103'']
       [\<lparr>movie_id = 1, tmdbId = 101\<rparr>, \<lparr>movie_id = 2, tmdbId = 102\<rparr>, \<lparr>movie_id = 3, tmdbId = 103\<rparr>]
       [2] [] [] [] []"

definition twoMovies :: env where
  "twoMovies =
     scenario [movie ''a'' ''A'' 10 ''101'', movie ''b'' ''B'' 10 ''102'']
       [\<lparr>movie_id = 1, tmdbId = 101\<rparr>, \<lparr>movie_id = 2, tmdbId = 102\<rparr>] [] [] [] [] []"

definition oneMovie :: "int \<Rightarrow> string \<Rightarrow> int \<Rightarrow> env" where
  "oneMovie days tmdb recordTmdb =
     scenario [movie ''a'' ''A'' days tmdb] [\<lparr>movie_id = 1, tmdbId = recordTmdb\<rparr>] [] [] [] [] []"

section \<open>Notions used in the statements\<close>

text \<open>
  The error messages of the rejected file deletions of one season, in request order;
  each request sees the ones before it.
\<close>

fun episodeErrors :: "env \<Rightarrow> conn \<Rightarrow> SonarrEpisode list \<Rightarrow> call list \<Rightarrow> string list" where
  "episodeErrors e sn [] cs = []"
| "episodeErrors e sn (ep # rest) cs =
     (case deleteSonarrEpisodeFile e cs sn (episodeFileId ep) of None \<Rightarrow> [] | Some msg \<Rightarrow> [msg])
       @ episodeErrors e sn rest (cs @ [DeleteSonarrEpisodeFile (episodeFileId ep)])"

text \<open>The log of \<open>s'\<close> is the log of \<open>s\<close> with stamped lines put in front.\<close>

definition logGrows :: "env \<Rightarrow> state \<Rightarrow> state \<Rightarrow> bool" where
  "logGrows e s s' \<longleftrightarrow> (\<exists>new. logs s' = new @ logs s \<and> (\<forall>l \<in> set new. \<exists>k m. l = stamp e k @ m))"

section \<open>Properties of the helper functions\<close>









section \<open>The deletion run and the exclusion list\<close>

lemma exclusions_addLog [simp]: "exclusions (addLog e m s) = exclusions s"
  by (simp add: addLog_def)

lemma exclusions_issue [simp]: "exclusions (issue c s) = exclusions s"
  by (simp add: issue_def)

lemma exclusions_deleteEpisodes:
  "exclusions (fst (deleteEpisodes e sn item eps (s, ok))) = exclusions s"
  by (induction eps arbitrary: s ok) (auto split: option.splits)

lemma exclusions_deleteMovie:
  "exclusions (fst (snd (deleteMovie e st rm item (s, n)))) = exclusions s"
  by (simp add: deleteMovie_def split: option.splits)

lemma exclusions_deleteSeason:
  "exclusions (fst (snd (deleteSeason e st ss pm item (s, n)))) = exclusions s"
proof -
  have "exclusions (fst (deleteEpisodes e sn item eps (s', True))) = exclusions s'" for sn eps s'
    by (rule exclusions_deleteEpisodes)
  then show ?thesis
    by (auto simp: deleteSeason_def Let_def split: option.splits sum.splits prod.splits)
       (metis fst_conv exclusions_issue)+
qed

lemma exclusions_deleteItem:
  "exclusions (fst (snd (deleteItem e st rm ss pm item ls))) = exclusions (fst ls)"
  by (cases ls) (simp add: deleteItem_def exclusions_deleteMovie exclusions_deleteSeason)

lemma exclusions_deleteItems:
  "exclusions (fst (snd (deleteItems e st rm ss pm xs ls))) = exclusions (fst ls)"
proof (induction xs arbitrary: ls)
  case Nil
  show ?case by simp
next
  case (Cons x xs)
  obtain r ls' where step: "deleteItem e st rm ss pm x ls = (r, ls')"
    by (cases "deleteItem e st rm ss pm x ls") auto
  have keep: "exclusions (fst ls') = exclusions (fst ls)"
    using exclusions_deleteItem [of e st rm ss pm x ls] step by simp
  show ?case
  proof (cases r)
    case None
    with step Cons.IH [of ls'] keep show ?thesis by simp
  next
    case (Some err)
    with step keep show ?thesis by simp
  qed
qed

lemma exclusions_deleteBatch:
  "exclusions (fst (snd (deleteBatch e st xs (s, n)))) = exclusions s"
proof -
  have "exclusions (fst (snd (deleteItems e st rm ss pm xs (s', n)))) = exclusions s'" for rm ss pm s'
    using exclusions_deleteItems [of e st rm ss pm xs "(s', n)"] by simp
  then show ?thesis
    by (auto simp: deleteBatch_def fetchRadarrMovies_def fetchSonarrSeries_def fetchParentSeries_def
             split: option.splits sum.splits prod.splits)
qed

lemma exclusions_handleScan: "exclusions (handleScan e s) = exclusions s"
  by (simp add: handleScan_def Let_def split: option.splits sum.splits)

text \<open>
  C9. A deletion run leaves the exclusion list as it found it, whatever the settings,
  the batch, the answers of the services and the outcomes of the items are; the rescan
  that ends the run is included.
\<close>
theorem delete_run_keeps_exclusions: "exclusions (handleDelete e s) = exclusions s"
proof (cases "settings e")
  case None
  then show ?thesis by (simp add: handleDelete_def)
next
  case (Some st)
  show ?thesis
  proof (cases "length (selectedItems s) = 0")
    case True
    with Some show ?thesis by (simp add: handleDelete_def)
  next
    case False
    define s2 where "s2 = addLog e (t e ''logDeletionStarted'' [(''count'', PNum (int (length (selectedItems s))))])
                            (s\<lparr>isModalOpen := False, isLoading := True\<rparr>)"
    define xs where "xs = filter (\<lambda>item. ItemId item \<in> set (selectedItems s)) (deletableItems s)"
    obtain thrown s3 n where run: "deleteBatch e st xs (s2, 0) = (thrown, s3, n)"
      by (cases "deleteBatch e st xs (s2, 0)") auto
    have "exclusions s3 = exclusions s2"
      using exclusions_deleteBatch [of e st xs s2 0] run by simp
    also have "\<dots> = exclusions s" by (simp add: s2_def)
    finally have keep: "exclusions s3 = exclusions s" .
    show ?thesis
      using Some False run keep
      by (simp add: handleDelete_def Let_def s2_def [symmetric] xs_def [symmetric]
                    exclusions_handleScan split: option.splits)
  qed
qed

section \<open>Double arithmetic\<close>

lemma pow2_powi: "pow2 k = 2 powi k"
  by (simp add: pow2_def power_int_def field_simps)

lemma pow2_pos: "0 < pow2 k"
  by (simp add: pow2_powi)

lemma pow2_mono: "a \<le> b \<Longrightarrow> pow2 a \<le> pow2 b"
  by (simp add: pow2_powi power_int_increasing)

lemma pow2_add: "pow2 (a + b) = pow2 a * pow2 b"
  by (simp add: pow2_powi power_int_add)

lemma bitlen_nonneg: "0 \<le> bitlen n"
  by (induction n rule: bitlen.induct) (subst bitlen.simps, simp)

lemma bitlen_bounds: "0 < n \<Longrightarrow> 2 ^ nat (bitlen n - 1) \<le> n \<and> n < 2 ^ nat (bitlen n)"
proof (induction n rule: bitlen.induct)
  case (1 n)
  show ?case
  proof (cases "n = 1")
    case True
    have "bitlen 1 = 1"
      by (subst bitlen.simps, subst bitlen.simps) simp
    with True show ?thesis by simp
  next
    case False
    with "1.prems" have h: "0 < n div 2" by simp
    from "1.prems" have nn: "\<not> n \<le> 0" by simp
    have ih: "2 ^ nat (bitlen (n div 2) - 1) \<le> n div 2 \<and> n div 2 < 2 ^ nat (bitlen (n div 2))"
      using "1.IH" [OF nn h] .
    have b: "bitlen n = 1 + bitlen (n div 2)"
      using nn by (subst bitlen.simps) simp
    have "bitlen (n div 2) = 1 + bitlen (n div 2 div 2)"
      using h by (subst bitlen.simps) simp
    then have pos: "1 \<le> bitlen (n div 2)"
      using bitlen_nonneg [of "n div 2 div 2"] by simp
    have e1: "nat (bitlen n - 1) = Suc (nat (bitlen (n div 2) - 1))"
      using b pos by simp
    have e2: "nat (bitlen n) = Suc (nat (bitlen (n div 2)))"
      using b pos by simp
    have "2 * 2 ^ nat (bitlen (n div 2) - 1) \<le> n"
      using ih by linarith
    moreover have "n < 2 * 2 ^ nat (bitlen (n div 2))"
      using ih by linarith
    ultimately show ?thesis
      by (simp add: e1 e2)
  qed
qed


lemma exponentOf_le:
  assumes "0 < a"
  shows "pow2 (exponentOf a) \<le> a"
proof -
  obtain p q where pq: "quotient_of a = (p, q)" by (cases "quotient_of a") auto
  have q: "0 < q" using quotient_of_denom_pos [OF pq] .
  have a: "a = of_int p / of_int q" using quotient_of_div [OF pq] .
  have p: "0 < p" using assms q by (simp add: a zero_less_divide_iff)
  define e0 where "e0 = bitlen p - bitlen q"
  have bp: "2 ^ nat (bitlen p - 1) \<le> p" using bitlen_bounds [OF p] by simp
  have bq: "q < 2 ^ nat (bitlen q)" using bitlen_bounds [OF q] by simp
  have lp: "1 \<le> bitlen p"
    using p bitlen_nonneg [of "p div 2"] by (subst bitlen.simps) simp
  have lq: "0 \<le> bitlen q" by (rule bitlen_nonneg)
  have "pow2 (e0 - 1) \<le> a"
  proof -
    have "pow2 (e0 - 1) * of_int q \<le> pow2 (e0 - 1) * pow2 (bitlen q)"
    proof -
      have "(of_int q :: rat) \<le> of_int (2 ^ nat (bitlen q))" using bq by (simp only: of_int_le_iff)
      also have "\<dots> = pow2 (bitlen q)" using lq by (simp add: pow2_def)
      finally show ?thesis using pow2_pos [of "e0 - 1"] by simp
    qed
    also have "\<dots> = pow2 (bitlen p - 1)"
      by (simp add: pow2_add [symmetric] e0_def)
    also have "\<dots> = of_int (2 ^ nat (bitlen p - 1))" using lp by (simp add: pow2_def)
    also have "\<dots> \<le> of_int p" using bp by (simp only: of_int_le_iff)
    finally have "pow2 (e0 - 1) * of_int q \<le> of_int p" .
    then show ?thesis using q by (simp add: a pos_le_divide_eq)
  qed
  then show ?thesis
    by (simp add: exponentOf_def pq e0_def Let_def)
qed

lemma roundHalfEven_of_int: "roundHalfEven (of_int k) = k"
  by (simp add: roundHalfEven_def)

lemma roundHalfEven_le: "m \<le> of_int k \<Longrightarrow> roundHalfEven m \<le> k"
  unfolding roundHalfEven_def Let_def by (auto split: if_splits) linarith+

lemma roundHalfEven_ge: "of_int k + 1 / 2 < m \<Longrightarrow> k + 1 \<le> roundHalfEven m"
  unfolding roundHalfEven_def Let_def by (auto split: if_splits) linarith+

lemma roundHalfEven_nonneg: "0 \<le> m \<Longrightarrow> 0 \<le> roundHalfEven m"
  unfolding roundHalfEven_def Let_def by (auto split: if_splits)


lemma toDouble_nonpos: "x \<le> 0 \<Longrightarrow> toDouble x \<le> 0"
proof -
  assume x: "x \<le> 0"
  have "0 \<le> of_int (roundHalfEven (\<bar>x\<bar> / u)) * u" if "0 < u" for u :: rat
    using that roundHalfEven_nonneg [of "\<bar>x\<bar> / u"] by simp
  then show ?thesis
    using x pow2_pos by (auto simp: toDouble_def Let_def mult.assoc)
qed

lemma exponentOf_upper:
  assumes "0 < a" and "a < pow2 k"
  shows "exponentOf a < k"
proof (rule ccontr)
  assume "\<not> exponentOf a < k"
  then have "pow2 k \<le> pow2 (exponentOf a)" by (simp add: pow2_mono)
  with exponentOf_le [OF assms(1)] assms(2) show False by simp
qed

text \<open>The shape of \<open>toDouble\<close> on a positive number below \<open>2^(k+1)\<close> with \<open>k \<le> 52\<close>.\<close>

lemma toDouble_pos_shape:
  assumes "0 < x" and "x < pow2 (k + 1)" and "k \<le> 52" and "- 1022 \<le> k"
  shows "\<exists>j. nat (52 - k) \<le> j \<and> toDouble x = of_int (roundHalfEven (x * of_int (2 ^ j))) / of_int (2 ^ j)"
proof -
  define e where "e = max (exponentOf x) (- 1022)"
  have "exponentOf x < k + 1" by (rule exponentOf_upper [OF assms(1,2)])
  then have ek: "e \<le> k" using assms(4) by (simp add: e_def)
  define j where "j = nat (52 - e)"
  have jk: "nat (52 - k) \<le> j" using ek by (simp add: j_def)
  have ulp: "pow2 (e - 52) = 1 / of_int (2 ^ j)"
    using ek assms(3) by (auto simp: pow2_def j_def)
  have "toDouble x = of_int (roundHalfEven (x / pow2 (e - 52))) * pow2 (e - 52)"
    using assms(1) by (simp add: toDouble_def Let_def e_def)
  then have "toDouble x = of_int (roundHalfEven (x * of_int (2 ^ j))) / of_int (2 ^ j)"
    by (simp add: ulp)
  with jk show ?thesis by blast
qed

lemma toDouble_of_int_exact:
  assumes "0 < d" and "d < 2 ^ 53"
  shows "toDouble (of_int d) = of_int d"
proof -
  have "(of_int d :: rat) < of_int (2 ^ 53)" using assms(2) by (simp only: of_int_less_iff)
  then have lt: "(of_int d :: rat) < pow2 (52 + 1)" by (simp add: pow2_def)
  from toDouble_pos_shape [OF _ lt] assms(1)
  obtain j where "toDouble (of_int d) = of_int (roundHalfEven (of_int d * of_int (2 ^ j))) / of_int (2 ^ j)"
    by auto
  moreover have "roundHalfEven (of_int d * of_int (2 ^ j)) = d * 2 ^ j"
    using roundHalfEven_of_int [of "d * 2 ^ j"] by simp
  ultimately show ?thesis by simp
qed

lemma toDouble_whole_le:
  assumes "0 < x" and "x < pow2 27" and "x \<le> of_int T"
  shows "toDouble x \<le> of_int T"
proof -
  from toDouble_pos_shape [of x 26] assms(1,2)
  obtain j where j: "toDouble x = of_int (roundHalfEven (x * of_int (2 ^ j))) / of_int (2 ^ j)"
    by auto
  have "x * of_int (2 ^ j) \<le> of_int (T * 2 ^ j)"
    using assms(3) by (simp add: mult_right_mono)
  then have "roundHalfEven (x * of_int (2 ^ j)) \<le> T * 2 ^ j"
    by (rule roundHalfEven_le)
  then have "(of_int (roundHalfEven (x * of_int (2 ^ j))) :: rat) \<le> of_int (T * 2 ^ j)"
    by (simp only: of_int_le_iff)
  then show ?thesis
    by (simp add: j pos_divide_le_eq)
qed

lemma toDouble_whole_gt:
  assumes "0 < x" and "x < pow2 27" and "of_int T + 1 / 86400000 \<le> x"
  shows "of_int T < toDouble x"
proof -
  from toDouble_pos_shape [of x 26] assms(1,2)
  obtain j where jge: "nat (52 - 26) \<le> j"
    and j: "toDouble x = of_int (roundHalfEven (x * of_int (2 ^ j))) / of_int (2 ^ j)"
    by auto
  define P :: rat where "P = of_int (2 ^ j)"
  have "(2::int) ^ 26 \<le> 2 ^ j"
    using jge by (intro power_increasing) simp_all
  then have "(of_int (2 ^ 26) :: rat) \<le> of_int (2 ^ j)"
    by (simp only: of_int_le_iff)
  then have big: "67108864 \<le> P"
    by (simp add: P_def)
  then have half: "1 / 2 < P / 86400000"
    by simp
  have "(of_int T + 1 / 86400000) * P = of_int T * P + P / 86400000"
    by (simp add: distrib_right)
  with half have "of_int T * P + 1 / 2 < (of_int T + 1 / 86400000) * P"
    by simp
  then have "of_int (T * 2 ^ j) + 1 / 2 < (of_int T + 1 / 86400000) * (of_int (2 ^ j) :: rat)"
    by (simp add: P_def)
  also have "\<dots> \<le> x * of_int (2 ^ j)"
    using assms(3) by (simp add: mult_right_mono)
  finally have "T * 2 ^ j + 1 \<le> roundHalfEven (x * of_int (2 ^ j))"
    by (rule roundHalfEven_ge)
  then have "(of_int (T * 2 ^ j + 1) :: rat) \<le> of_int (roundHalfEven (x * of_int (2 ^ j)))"
    by (simp only: of_int_le_iff)
  then have "of_int T * of_int (2 ^ j) < (of_int (roundHalfEven (x * of_int (2 ^ j))) :: rat)"
    by simp
  then show ?thesis
    by (simp add: j pos_less_divide_eq)
qed

text \<open>
  Against a whole number of days the comparison of the code is exact: the rounded
  quotient exceeds it exactly when the true quotient does.
\<close>

lemma whole_day_exact:
  assumes "0 \<le> T" and "d < 2 ^ 53"
  shows "of_int T < toDouble (toDouble (of_int d) / (1000 * 3600 * 24))
           \<longleftrightarrow> (of_int T :: rat) < of_int d / (1000 * 3600 * 24)"
proof (cases "0 < d")
  case False
  then have "toDouble (of_int d) \<le> 0" by (intro toDouble_nonpos) simp
  then have "toDouble (toDouble (of_int d) / (1000 * 3600 * 24)) \<le> 0"
    by (intro toDouble_nonpos) (simp add: divide_le_0_iff)
  moreover have "(of_int d :: rat) / (1000 * 3600 * 24) \<le> 0"
    using False by (simp add: divide_le_0_iff)
  moreover have "(0 :: rat) \<le> of_int T" using assms(1) by simp
  ultimately show ?thesis by linarith
next
  case True
  let ?x = "(of_int d :: rat) / 86400000"
  have ex: "toDouble (of_int d) = of_int d"
    by (rule toDouble_of_int_exact [OF True assms(2)])
  have pos: "0 < ?x" using True by simp
  have "(of_int d :: rat) < of_int (2 ^ 53)" using assms(2) by (simp only: of_int_less_iff)
  then have lt: "?x < pow2 27"
    by (simp add: pow2_def pos_divide_less_eq)
  show ?thesis
  proof (cases "(of_int T :: rat) < ?x")
    case gt: True
    then have "(of_int (T * 86400000) :: rat) < of_int d"
      by (simp add: pos_less_divide_eq)
    then have "T * 86400000 < d"
      by (simp only: of_int_less_iff)
    then have "T * 86400000 + 1 \<le> d"
      by linarith
    then have "(of_int (T * 86400000 + 1) :: rat) \<le> of_int d"
      by (simp only: of_int_le_iff)
    then have "of_int T + 1 / 86400000 \<le> ?x"
      by (simp add: pos_le_divide_eq field_simps)
    from toDouble_whole_gt [OF pos lt this] gt show ?thesis
      by (simp add: ex)
  next
    case le: False
    then have "?x \<le> of_int T" by simp
    from toDouble_whole_le [OF pos lt this] le show ?thesis
      by (simp add: ex)
  qed
qed

section \<open>The retention scan\<close>

text \<open>
  C10. A retention threshold that is missing or 0 is replaced by the default, 7 days for
  movies and 28 days for seasons; any other configured value is used as it is; so the
  threshold in effect is never 0.
\<close>
theorem retention_defaults:
  "(cfgMovieDays ctx = None \<or> cfgMovieDays ctx = Some 0 \<longrightarrow> movieRetentionDays ctx = 7)
   \<and> (cfgSeasonDays ctx = None \<or> cfgSeasonDays ctx = Some 0 \<longrightarrow> tvSeasonRetentionDays ctx = 28)
   \<and> (\<forall>x. cfgMovieDays ctx = Some x \<and> x \<noteq> 0 \<longrightarrow> movieRetentionDays ctx = x)
   \<and> (\<forall>x. cfgSeasonDays ctx = Some x \<and> x \<noteq> 0 \<longrightarrow> tvSeasonRetentionDays ctx = x)
   \<and> movieRetentionDays ctx \<noteq> 0 \<and> tvSeasonRetentionDays ctx \<noteq> 0"
  by (auto simp: movieRetentionDays_def tvSeasonRetentionDays_def orDefault_def split: option.splits)

theorem retention_defaults_witness:
  "cfgMovieDays (Some (settings0\<lparr>automation := Some \<lparr>cfg_movieRetentionDays = Some 0, cfg_tvSeasonRetentionDays = None\<rparr>\<rparr>)) = Some 0
   \<and> cfgSeasonDays (Some (settings0\<lparr>automation := Some \<lparr>cfg_movieRetentionDays = Some 0, cfg_tvSeasonRetentionDays = None\<rparr>\<rparr>)) = None
   \<and> movieRetentionDays (Some (settings0\<lparr>automation := Some \<lparr>cfg_movieRetentionDays = Some 0, cfg_tvSeasonRetentionDays = None\<rparr>\<rparr>)) = 7
   \<and> tvSeasonRetentionDays (Some (settings0\<lparr>automation := Some \<lparr>cfg_movieRetentionDays = Some 0, cfg_tvSeasonRetentionDays = None\<rparr>\<rparr>)) = 28
   \<and> cfgMovieDays (Some settings0) = Some 7 \<and> movieRetentionDays (Some settings0) = 7
   \<and> cfgSeasonDays (Some settings0) = Some 28 \<and> tvSeasonRetentionDays (Some settings0) = 28"
proof -
  have d: "toDouble 0 = 0" "toDouble 7 = 7" "toDouble 28 = 28"
    by code_simp+
  show ?thesis
    using retention_defaults [of "Some (settings0\<lparr>automation := Some \<lparr>cfg_movieRetentionDays = Some 0, cfg_tvSeasonRetentionDays = None\<rparr>\<rparr>)"]
          retention_defaults [of "Some settings0"]
    by (simp add: cfgMovieDays_def cfgSeasonDays_def settings0_def d)
qed

lemma handleScan_deletableItems:
  assumes "settings e = Some st" and "jellyfin st = Some jf"
    and "getItems e (calls s) jf [''Movie'', ''Season''] = Inr allItems"
  shows "deletableItems (handleScan e s) =
           filter (scanFilter (exclusions s) (movieRetentionDays (settings e))
                     (tvSeasonRetentionDays (settings e))
                     (scanNow e (calls s @ [GetItems [''Movie'', ''Season'']]))) allItems"
  using assms by (simp add: handleScan_def Let_def addLog_def)

lemma scanFilter_iff:
  "scanFilter excl m sn now item \<longleftrightarrow>
     ItemId item \<notin> set excl \<and>
     (\<exists>age. ageInDays now (DateCreated item) = Some age \<and>
        (ItemType item = ''Movie'' \<and> age > m \<or> ItemType item = ''Season'' \<and> age > sn))"
  by (auto simp: scanFilter_def Let_def gt_def split: option.splits)

text \<open>
  C2. When the scan receives the catalog entries \<open>allItems\<close>, an entry outside the
  exclusion list is kept exactly when its creation date is readable and its age in
  days, as the code computes it (the difference of \<open>now\<close> and the creation time in
  milliseconds, divided by the milliseconds of a day, in double arithmetic), is strictly
  greater than the movie threshold for a Movie, or than the season threshold for a
  Season. An entry whose age equals its threshold is dropped, and so is an entry of any
  other kind. \<open>now\<close> is the date the scan reads after the catalog has answered. When
  the threshold in effect is a whole number of days, the double arithmetic loses
  nothing: the entry is kept exactly when its true age, the quotient of the
  millisecond difference by the milliseconds of a day, is greater than the threshold.
\<close>

theorem scan_eligibility:
  assumes "settings e = Some st" and "jellyfin st = Some jf"
    and "getItems e (calls s) jf [''Movie'', ''Season''] = Inr allItems"
    and "item \<in> set allItems" and "ItemId item \<notin> set (exclusions s)"
    and "now = scanNow e (calls s @ [GetItems [''Movie'', ''Season'']])"
  shows "(item \<in> set (deletableItems (handleScan e s)) \<longleftrightarrow>
           (\<exists>created age. DateCreated item = Some created
              \<and> age = toDouble (toDouble (of_int (now - created)) / (1000 * 3600 * 24))
              \<and> (ItemType item = ''Movie'' \<and> age > movieRetentionDays (settings e)
                  \<or> ItemType item = ''Season'' \<and> age > tvSeasonRetentionDays (settings e))))
         \<and> (ItemType item = ''Movie'' \<and>
              ageInDays now (DateCreated item) = Some (movieRetentionDays (settings e))
              \<longrightarrow> item \<notin> set (deletableItems (handleScan e s)))
         \<and> (ItemType item = ''Season'' \<and>
              ageInDays now (DateCreated item) = Some (tvSeasonRetentionDays (settings e))
              \<longrightarrow> item \<notin> set (deletableItems (handleScan e s)))
         \<and> (ItemType item \<noteq> ''Movie'' \<and> ItemType item \<noteq> ''Season''
              \<longrightarrow> item \<notin> set (deletableItems (handleScan e s)))
         \<and> (\<forall>created T. DateCreated item = Some created \<and> 0 \<le> T \<and> now - created < 2 ^ 53
                \<and> (ItemType item = ''Movie'' \<and> movieRetentionDays (settings e) = of_int T
                    \<or> ItemType item = ''Season'' \<and> tvSeasonRetentionDays (settings e) = of_int T)
              \<longrightarrow> (item \<in> set (deletableItems (handleScan e s))
                    \<longleftrightarrow> of_int T < (of_int (now - created) :: rat) / (1000 * 3600 * 24)))"
proof -
  have listed: "item \<in> set (deletableItems (handleScan e s)) \<longleftrightarrow>
      (\<exists>age. ageInDays now (DateCreated item) = Some age \<and>
         (ItemType item = ''Movie'' \<and> age > movieRetentionDays (settings e)
          \<or> ItemType item = ''Season'' \<and> age > tvSeasonRetentionDays (settings e)))"
    using assms(4,5)
    by (simp add: handleScan_deletableItems [OF assms(1-3)] scanFilter_iff assms(6))
  have age: "ageInDays now (DateCreated item) = Some a \<longleftrightarrow>
      (\<exists>created. DateCreated item = Some created
         \<and> a = toDouble (toDouble (of_int (now - created)) / (1000 * 3600 * 24)))" for a
    by (auto simp: ageInDays_def split: option.splits)
  have main: "(item \<in> set (deletableItems (handleScan e s)) \<longleftrightarrow>
           (\<exists>created age. DateCreated item = Some created
              \<and> age = toDouble (toDouble (of_int (now - created)) / (1000 * 3600 * 24))
              \<and> (ItemType item = ''Movie'' \<and> age > movieRetentionDays (settings e)
                  \<or> ItemType item = ''Season'' \<and> age > tvSeasonRetentionDays (settings e))))
         \<and> (ItemType item = ''Movie'' \<and>
              ageInDays now (DateCreated item) = Some (movieRetentionDays (settings e))
              \<longrightarrow> item \<notin> set (deletableItems (handleScan e s)))
         \<and> (ItemType item = ''Season'' \<and>
              ageInDays now (DateCreated item) = Some (tvSeasonRetentionDays (settings e))
              \<longrightarrow> item \<notin> set (deletableItems (handleScan e s)))
         \<and> (ItemType item \<noteq> ''Movie'' \<and> ItemType item \<noteq> ''Season''
              \<longrightarrow> item \<notin> set (deletableItems (handleScan e s)))"
    unfolding listed age by auto
  have whole: "item \<in> set (deletableItems (handleScan e s))
                 \<longleftrightarrow> of_int T < (of_int (now - created) :: rat) / (1000 * 3600 * 24)"
    if c: "DateCreated item = Some created" and T: "0 \<le> T" and d: "now - created < 2 ^ 53"
      and k: "ItemType item = ''Movie'' \<and> movieRetentionDays (settings e) = of_int T
              \<or> ItemType item = ''Season'' \<and> tvSeasonRetentionDays (settings e) = of_int T"
    for created T
  proof -
    have a: "ageInDays now (DateCreated item)
               = Some (toDouble (toDouble (of_int (now - created)) / (1000 * 3600 * 24)))"
      by (simp add: ageInDays_def c)
    have "item \<in> set (deletableItems (handleScan e s))
            \<longleftrightarrow> of_int T < toDouble (toDouble (of_int (now - created)) / (1000 * 3600 * 24))"
      unfolding listed a using k by auto
    then show ?thesis
      using whole_day_exact [OF T d] by simp
  qed
  from main whole show ?thesis by blast
qed

text \<open>
  C3. An entry whose identifier is in the exclusion list is rejected by the filter for
  every threshold, every time \<open>now\<close>, every kind and every creation date (also an
  unreadable one), and it is not among the items a scan produces.
\<close>
theorem excluded_never_eligible:
  assumes "ItemId item \<in> set (exclusions s)"
  shows "scanFilter (exclusions s) m sn now item = False
         \<and> (\<forall>st jf. settings e = Some st \<and> jellyfin st = Some jf
               \<longrightarrow> item \<notin> set (deletableItems (handleScan e s)))"
proof -
  have a: "scanFilter (exclusions s) m' sn' now' item = False" for m' sn' now'
    using assms by (simp add: scanFilter_def)
  have "item \<notin> set (deletableItems (handleScan e s))"
    if "settings e = Some st" "jellyfin st = Some jf" for st jf
    using that a by (simp add: handleScan_def Let_def addLog_def split: sum.splits)
  with a show ?thesis by blast
qed

theorem scan_eligibility_witness:
  "movie ''a'' ''A'' 10 ''603'' \<in> set (deletableItems (handleScan (oneMovie 10 ''603'' 603) initialState))
   \<and> movie ''a'' ''A'' 7 ''603'' \<notin> set (deletableItems (handleScan (oneMovie 7 ''603'' 603) initialState))"
proof -
  let ?jf = "\<lparr>url = ''http://jellyfin'', apiKey = ''j''\<rparr>"
  have h1: "settings (oneMovie d ''603'' 603) = Some settings0" for d
    by (simp add: oneMovie_def scenario_def)
  have h2: "jellyfin settings0 = Some ?jf"
    by (simp add: settings0_def)
  have h3: "getItems (oneMovie d ''603'' 603) (calls initialState) ?jf [''Movie'', ''Season'']
              = Inr [movie ''a'' ''A'' d ''603'']" for d
    by (simp add: oneMovie_def scenario_def)
  have h4: "movie ''a'' ''A'' d ''603'' \<in> set [movie ''a'' ''A'' d ''603'']" for d
    by simp
  have h5: "ItemId (movie ''a'' ''A'' d ''603'') \<notin> set (exclusions initialState)" for d
    by (simp add: initialState_def)
  have h6: "nowMs = scanNow (oneMovie d ''603'' 603) (calls initialState @ [GetItems [''Movie'', ''Season'']])" for d
    by (simp add: oneMovie_def scenario_def)
  have created: "DateCreated (movie ''a'' ''A'' d ''603'') = Some (nowMs - d * 86400000)" for d
    by (simp add: movie_def daysAgo_def)
  have age10: "toDouble (toDouble 864000000 / 86400000) = 10"
    by code_simp
  have age7: "toDouble (toDouble 604800000 / 86400000) = 7"
    by code_simp
  have m: "movieRetentionDays (settings (oneMovie d ''603'' 603)) = 7" for d
    unfolding h1 by code_simp
  have ty: "ItemType (movie ''a'' ''A'' d ''603'') = ''Movie''" for d
    by (simp add: movie_def)
  show ?thesis
    using scan_eligibility [OF h1 h2 h3 h4 h5 h6, of 10] scan_eligibility [OF h1 h2 h3 h4 h5 h6, of 7]
    by (simp add: created age10 age7 m ty)
qed

text \<open>
  With the threshold 0.7 and an entry created 60480000 ms before the scan, the quotient
  rounds to the double 0.7, which is the threshold itself: the entry is dropped. One
  millisecond more and it is listed.
\<close>

lemma scan_compares_doubles:
  "deletableItems
     (handleScan
        (scenario [(movie ''a'' ''A'' 0 ''603'')\<lparr>DateCreated := Some (nowMs - 60480000)\<rparr>,
                   (movie ''b'' ''B'' 0 ''604'')\<lparr>DateCreated := Some (nowMs - 60480001)\<rparr>] [] [] [] [] [] []
           \<lparr>settings := Some (settings0\<lparr>automation :=
                Some \<lparr>cfg_movieRetentionDays = Some (7 / 10), cfg_tvSeasonRetentionDays = None\<rparr>\<rparr>)\<rparr>)
        initialState)
   = [(movie ''b'' ''B'' 0 ''604'')\<lparr>DateCreated := Some (nowMs - 60480001)\<rparr>]"
  by code_simp

theorem excluded_never_eligible_witness:
  "ItemId (movie ''a'' ''A'' 10 ''101'') \<in> set (exclusions (initialState\<lparr>exclusions := [''a'']\<rparr>))
   \<and> movie ''a'' ''A'' 10 ''101'' \<notin> set (deletableItems (handleScan twoMovies (initialState\<lparr>exclusions := [''a'']\<rparr>)))
   \<and> movie ''b'' ''B'' 10 ''102'' \<in> set (deletableItems (handleScan twoMovies (initialState\<lparr>exclusions := [''a'']\<rparr>)))"
proof -
  have h: "ItemId (movie ''a'' ''A'' 10 ''101'') \<in> set (exclusions (initialState\<lparr>exclusions := [''a'']\<rparr>))"
    by (simp add: movie_def initialState_def)
  have c: "settings twoMovies = Some settings0 \<and> jellyfin settings0 = Some \<lparr>url = ''http://jellyfin'', apiKey = ''j''\<rparr>"
    by (simp add: twoMovies_def scenario_def settings0_def)
  have b: "movie ''b'' ''B'' 10 ''102'' \<in> set (deletableItems (handleScan twoMovies (initialState\<lparr>exclusions := [''a'']\<rparr>)))"
    by code_simp
  show ?thesis
    using excluded_never_eligible [OF h, of 7 28 nowMs twoMovies] h c b by simp
qed

section \<open>Exclusion handlers\<close>



section \<open>Season items\<close>

lemma deleteEpisodes_calls:
  "calls (fst (deleteEpisodes e sn item eps (s, ok))) =
     calls s @ map (\<lambda>ep. DeleteSonarrEpisodeFile (episodeFileId ep)) eps"
  by (induction eps arbitrary: s ok) (auto simp: issue_def addLog_def split: option.splits)

lemma deleteEpisodes_flag:
  "snd (deleteEpisodes e sn item eps (s, ok)) = (ok \<and> episodeErrors e sn eps (calls s) = [])"
  by (induction eps arbitrary: s ok) (auto simp: issue_def addLog_def split: option.splits)

lemma deleteEpisodes_ticks:
  "ticks (fst (deleteEpisodes e sn item eps (s, ok))) = ticks s + length (episodeErrors e sn eps (calls s))"
  by (induction eps arbitrary: s ok) (auto simp: issue_def addLog_def split: option.splits)

lemma deleteEpisodes_logs:
  "logs (fst (deleteEpisodes e sn item eps (s, ok))) =
     rev (map (\<lambda>(k, msg). stamp e k @ t e ''logDeletionFailedEpisode''
                 [(''seriesName'', pstr (SeriesName item)), (''name'', PStr (ItemName item)),
                  (''error'', PStr msg)])
            (enumerate (ticks s) (episodeErrors e sn eps (calls s))))
     @ logs s"
  by (induction eps arbitrary: s ok) (auto simp: issue_def addLog_def split: option.splits)

lemma deleteSeason_resolved:
  assumes "configured (sonarr st) = Some sn"
    and "truthy (mapGet pm (SeriesId item)) = Some tvdb"
    and "find (\<lambda>x. Some (tvdbId x) = parseInt tvdb) ss = Some serie"
    and "getSonarrEpisodes e (calls s) sn (series_id serie) = Inr episodes"
    and "matchDigits (ItemName item) = Some digits"
  shows "deleteSeason e st ss pm item (s, n) =
           (let s1 = issue (GetSonarrEpisodes (series_id serie)) s;
                episodesToDelete = filter (\<lambda>ep. Some (seasonNumber ep) = parseInt digits \<and> hasFile ep) episodes
            in if episodesToDelete = []
               then (None, addLog e (t e ''logDeletionInfoSonarrFiles'' (seasonParams item)) s1, n + 1)
               else if snd (deleteEpisodes e sn item episodesToDelete (s1, True))
                    then (None,
                          addLog e (t e ''logDeletionSuccessSonarr''
                                     ((''count'', PNum (int (length episodesToDelete))) # seasonParams item))
                            (fst (deleteEpisodes e sn item episodesToDelete (s1, True))), n + 1)
                    else (None,
                          addLog e (t e ''logDeletionFailedSonarrMulti'' (seasonParams item))
                            (fst (deleteEpisodes e sn item episodesToDelete (s1, True))), n))"
  using assms by (simp add: deleteSeason_def Let_def split: prod.splits)

text \<open>
  C6. A Season item whose series is found, whose episode list arrives, whose name has a
  season number, and for which no episode of that season has a file: the step throws
  nothing, counts the item as a success, writes the one line
  \<open>logDeletionInfoSonarrFiles\<close>, and its only request is the episode list, so no
  file deletion is issued.
\<close>
theorem empty_season_succeeds:
  assumes "ItemType item = ''Season''"
    and "configured (sonarr st) = Some sn"
    and "truthy (mapGet pm (SeriesId item)) = Some tvdb"
    and "find (\<lambda>x. Some (tvdbId x) = parseInt tvdb) ss = Some serie"
    and "getSonarrEpisodes e (calls s) sn (series_id serie) = Inr episodes"
    and "matchDigits (ItemName item) = Some digits"
    and "filter (\<lambda>ep. Some (seasonNumber ep) = parseInt digits \<and> hasFile ep) episodes = []"
    and "deleteItem e st rm ss pm item (s, n) = (thrown, s', n')"
  shows "thrown = None \<and> n' = n + 1
         \<and> calls s' = calls s @ [GetSonarrEpisodes (series_id serie)]
         \<and> logs s' = (stamp e (ticks s) @ t e ''logDeletionInfoSonarrFiles'' (seasonParams item)) # logs s"
  using assms(1,7,8)
  by (auto simp: deleteItem_def deleteSeason_resolved [OF assms(2-6)] Let_def issue_def addLog_def)

theorem empty_season_succeeds_witness:
  "fst (deleteItem (seasonScenario [\<lparr>seasonNumber = 1, hasFile = True, episodeFileId = 11\<rparr>,
                                     \<lparr>seasonNumber = 2, hasFile = False, episodeFileId = 0\<rparr>] [])
          settings0 [] [\<lparr>series_id = 9, tvdbId = 555\<rparr>] [(''ser1'', Some ''555'')] season2 (initialState, 0)) = None
   \<and> snd (snd (deleteItem (seasonScenario [\<lparr>seasonNumber = 1, hasFile = True, episodeFileId = 11\<rparr>,
                                     \<lparr>seasonNumber = 2, hasFile = False, episodeFileId = 0\<rparr>] [])
          settings0 [] [\<lparr>series_id = 9, tvdbId = 555\<rparr>] [(''ser1'', Some ''555'')] season2 (initialState, 0))) = 1
   \<and> calls (fst (snd (deleteItem (seasonScenario [\<lparr>seasonNumber = 1, hasFile = True, episodeFileId = 11\<rparr>,
                                     \<lparr>seasonNumber = 2, hasFile = False, episodeFileId = 0\<rparr>] [])
          settings0 [] [\<lparr>series_id = 9, tvdbId = 555\<rparr>] [(''ser1'', Some ''555'')] season2 (initialState, 0))))
       = [GetSonarrEpisodes 9]
   \<and> logs (fst (snd (deleteItem (seasonScenario [\<lparr>seasonNumber = 1, hasFile = True, episodeFileId = 11\<rparr>,
                                     \<lparr>seasonNumber = 2, hasFile = False, episodeFileId = 0\<rparr>] [])
          settings0 [] [\<lparr>series_id = 9, tvdbId = 555\<rparr>] [(''ser1'', Some ''555'')] season2 (initialState, 0))))
       = [''[12:00:00] logDeletionInfoSonarrFiles seriesName=Show name=Season 2'']"
proof -
  let ?eps = "[\<lparr>seasonNumber = 1, hasFile = True, episodeFileId = 11\<rparr>,
               \<lparr>seasonNumber = 2, hasFile = False, episodeFileId = 0\<rparr>]"
  let ?e = "seasonScenario ?eps []"
  let ?sn = "\<lparr>url = ''http://sonarr'', apiKey = ''s''\<rparr>"
  let ?serie = "\<lparr>series_id = 9, tvdbId = 555\<rparr>"
  let ?pm = "[(''ser1'', Some ''555'')]"
  let ?R = "deleteItem ?e settings0 [] [?serie] ?pm season2 (initialState, 0)"
  have h1: "ItemType season2 = ''Season''"
    by (simp add: season2_def)
  have h2: "configured (sonarr settings0) = Some ?sn"
    by (simp add: configured_def settings0_def)
  have h3: "truthy (mapGet ?pm (SeriesId season2)) = Some ''555''"
    by (simp add: truthy_def mapGet_def season2_def)
  have h4: "find (\<lambda>x. Some (tvdbId x) = parseInt ''555'') [?serie] = Some ?serie"
    by code_simp
  have h5: "getSonarrEpisodes ?e (calls initialState) ?sn (series_id ?serie) = Inr ?eps"
    by (simp add: seasonScenario_def scenario_def)
  have h6: "matchDigits (ItemName season2) = Some ''2''"
    by code_simp
  have h7: "filter (\<lambda>ep. Some (seasonNumber ep) = parseInt ''2'' \<and> hasFile ep) ?eps = []"
    by code_simp
  have h8: "?R = (fst ?R, fst (snd ?R), snd (snd ?R))"
    by simp
  have line: "stamp ?e (ticks initialState) @ t ?e ''logDeletionInfoSonarrFiles'' (seasonParams season2)
                = ''[12:00:00] logDeletionInfoSonarrFiles seriesName=Show name=Season 2''"
    by code_simp
  have init: "calls initialState = []" "logs initialState = []"
    by (simp_all add: initialState_def)
  show ?thesis
    using empty_season_succeeds [OF h1 h2 h3 h4 h5 h6 h7 h8]
    by (simp add: line init)
qed

text \<open>
  C5, as amended. For a Season item with episode files to delete, one deletion request
  is issued for every such episode, in order, whatever the earlier ones answered, and the
  step throws nothing. If no request is rejected the item counts as a success and the
  line \<open>logDeletionSuccessSonarr\<close> carries the number of episodes. If some request
  is rejected the item is not counted, each rejection has written its own line
  \<open>logDeletionFailedEpisode\<close> with its error message, and the closing line
  \<open>logDeletionFailedSonarrMulti\<close> carries the series name and the item name only.
\<close>
theorem season_episode_deletions:
  assumes "ItemType item = ''Season''"
    and "configured (sonarr st) = Some sn"
    and "truthy (mapGet pm (SeriesId item)) = Some tvdb"
    and "find (\<lambda>x. Some (tvdbId x) = parseInt tvdb) ss = Some serie"
    and "getSonarrEpisodes e (calls s) sn (series_id serie) = Inr episodes"
    and "matchDigits (ItemName item) = Some digits"
    and "episodesToDelete = filter (\<lambda>ep. Some (seasonNumber ep) = parseInt digits \<and> hasFile ep) episodes"
    and "episodesToDelete \<noteq> []"
    and "errors = episodeErrors e sn episodesToDelete (calls s @ [GetSonarrEpisodes (series_id serie)])"
    and "deleteItem e st rm ss pm item (s, n) = (thrown, s', n')"
  shows "thrown = None
         \<and> calls s' = calls s @ GetSonarrEpisodes (series_id serie)
                         # map (\<lambda>ep. DeleteSonarrEpisodeFile (episodeFileId ep)) episodesToDelete
         \<and> (errors = [] \<longrightarrow> n' = n + 1
              \<and> logs s' = (stamp e (ticks s) @ t e ''logDeletionSuccessSonarr''
                             [(''count'', PNum (int (length episodesToDelete))),
                              (''seriesName'', pstr (SeriesName item)), (''name'', PStr (ItemName item))])
                          # logs s)
         \<and> (errors \<noteq> [] \<longrightarrow> n' = n
              \<and> logs s' = (stamp e (ticks s + length errors) @ t e ''logDeletionFailedSonarrMulti''
                             [(''seriesName'', pstr (SeriesName item)), (''name'', PStr (ItemName item))])
                          # rev (map (\<lambda>(k, msg). stamp e k @ t e ''logDeletionFailedEpisode''
                                        [(''seriesName'', pstr (SeriesName item)), (''name'', PStr (ItemName item)),
                                         (''error'', PStr msg)])
                                   (enumerate (ticks s) errors))
                          @ logs s)"
proof -
  let ?s1 = "issue (GetSonarrEpisodes (series_id serie)) s"
  let ?r = "deleteEpisodes e sn item episodesToDelete (?s1, True)"
  have c1: "calls ?s1 = calls s @ [GetSonarrEpisodes (series_id serie)]"
    and t1: "ticks ?s1 = ticks s" and l1: "logs ?s1 = logs s"
    by (simp_all add: issue_def)
  have flag: "snd ?r = (errors = [])"
    by (simp add: deleteEpisodes_flag c1 assms(9))
  have cs: "calls (fst ?r) = calls s @ GetSonarrEpisodes (series_id serie)
                         # map (\<lambda>ep. DeleteSonarrEpisodeFile (episodeFileId ep)) episodesToDelete"
    by (simp add: deleteEpisodes_calls c1)
  have tk: "ticks (fst ?r) = ticks s + length errors"
    by (simp add: deleteEpisodes_ticks c1 t1 assms(9))
  have lg: "logs (fst ?r) =
     rev (map (\<lambda>(k, msg). stamp e k @ t e ''logDeletionFailedEpisode''
                 [(''seriesName'', pstr (SeriesName item)), (''name'', PStr (ItemName item)),
                  (''error'', PStr msg)])
            (enumerate (ticks s) errors)) @ logs s"
    by (simp add: deleteEpisodes_logs c1 t1 l1 assms(9))
  have res: "(thrown, s', n') =
      (if errors = []
       then (None, addLog e (t e ''logDeletionSuccessSonarr''
                     ((''count'', PNum (int (length episodesToDelete))) # seasonParams item)) (fst ?r), n + 1)
       else (None, addLog e (t e ''logDeletionFailedSonarrMulti'' (seasonParams item)) (fst ?r), n))"
    using assms(1,8,10) flag
    by (simp add: deleteItem_def deleteSeason_resolved [OF assms(2-6)] Let_def assms(7) [symmetric])
  show ?thesis
  proof (cases "errors = []")
    case True
    with res have "thrown = None" "n' = n + 1"
      "s' = addLog e (t e ''logDeletionSuccessSonarr''
                     ((''count'', PNum (int (length episodesToDelete))) # seasonParams item)) (fst ?r)"
      by simp_all
    with True cs tk lg show ?thesis
      by (simp add: addLog_def seasonParams_def)
  next
    case False
    with res have "thrown = None" "n' = n"
      "s' = addLog e (t e ''logDeletionFailedSonarrMulti'' (seasonParams item)) (fst ?r)"
      by simp_all
    with False cs tk lg show ?thesis
      by (simp add: addLog_def seasonParams_def)
  qed
qed

theorem season_episode_deletions_witness:
  "fst (deleteItem (seasonScenario episodes2 [21]) settings0 [] [\<lparr>series_id = 9, tvdbId = 555\<rparr>]
          [(''ser1'', Some ''555'')] season2 (initialState, 0)) = None
   \<and> calls (fst (snd (deleteItem (seasonScenario episodes2 [21]) settings0 [] [\<lparr>series_id = 9, tvdbId = 555\<rparr>]
          [(''ser1'', Some ''555'')] season2 (initialState, 0))))
       = [GetSonarrEpisodes 9, DeleteSonarrEpisodeFile 21, DeleteSonarrEpisodeFile 22]
   \<and> snd (snd (deleteItem (seasonScenario episodes2 [21]) settings0 [] [\<lparr>series_id = 9, tvdbId = 555\<rparr>]
          [(''ser1'', Some ''555'')] season2 (initialState, 0))) = 0
   \<and> snd (snd (deleteItem (seasonScenario episodes2 []) settings0 [] [\<lparr>series_id = 9, tvdbId = 555\<rparr>]
          [(''ser1'', Some ''555'')] season2 (initialState, 0))) = 1"
proof -
  let ?etd = "[\<lparr>seasonNumber = 2, hasFile = True, episodeFileId = 21\<rparr>,
               \<lparr>seasonNumber = 2, hasFile = True, episodeFileId = 22\<rparr>]"
  let ?sn = "\<lparr>url = ''http://sonarr'', apiKey = ''s''\<rparr>"
  let ?serie = "\<lparr>series_id = 9, tvdbId = 555\<rparr>"
  let ?pm = "[(''ser1'', Some ''555'')]"
  let ?R = "\<lambda>fails. deleteItem (seasonScenario episodes2 fails) settings0 [] [?serie] ?pm season2 (initialState, 0)"
  have h1: "ItemType season2 = ''Season''"
    by (simp add: season2_def)
  have h2: "configured (sonarr settings0) = Some ?sn"
    by (simp add: configured_def settings0_def)
  have h3: "truthy (mapGet ?pm (SeriesId season2)) = Some ''555''"
    by (simp add: truthy_def mapGet_def season2_def)
  have h4: "find (\<lambda>x. Some (tvdbId x) = parseInt ''555'') [?serie] = Some ?serie"
    by code_simp
  have h5: "getSonarrEpisodes (seasonScenario episodes2 fails) (calls initialState) ?sn (series_id ?serie)
              = Inr episodes2" for fails
    by (simp add: seasonScenario_def scenario_def)
  have h6: "matchDigits (ItemName season2) = Some ''2''"
    by code_simp
  have h7: "?etd = filter (\<lambda>ep. Some (seasonNumber ep) = parseInt ''2'' \<and> hasFile ep) episodes2"
    by code_simp
  have h8: "?etd \<noteq> []"
    by simp
  have h9a: "[''boom''] = episodeErrors (seasonScenario episodes2 [21]) ?sn ?etd
                            (calls initialState @ [GetSonarrEpisodes (series_id ?serie)])"
    by code_simp
  have h9b: "[] = episodeErrors (seasonScenario episodes2 []) ?sn ?etd
                            (calls initialState @ [GetSonarrEpisodes (series_id ?serie)])"
    by code_simp
  have h10: "?R fails = (fst (?R fails), fst (snd (?R fails)), snd (snd (?R fails)))" for fails
    by simp
  have init: "calls initialState = []"
    by (simp add: initialState_def)
  show ?thesis
    using season_episode_deletions [OF h1 h2 h3 h4 h5 h6 h7 h8 h9a h10]
          season_episode_deletions [OF h1 h2 h3 h4 h5 h6 h7 h8 h9b h10]
    by (simp add: init)
qed

text \<open>
  Against C5 as stated: season 2 of a series has two episode files; in one run the
  deletion of one file is rejected, in the other run both are. The closing line of the
  item, \<open>logDeletionFailedSonarrMulti\<close>, is the same text in both runs: it holds no
  count of failures.
\<close>
theorem failure_count_counterexample:
  "length (episodeErrors (seasonScenario episodes2 [21]) \<lparr>url = ''http://sonarr'', apiKey = ''s''\<rparr>
             [\<lparr>seasonNumber = 2, hasFile = True, episodeFileId = 21\<rparr>,
              \<lparr>seasonNumber = 2, hasFile = True, episodeFileId = 22\<rparr>] []) = 1
   \<and> length (episodeErrors (seasonScenario episodes2 [21, 22]) \<lparr>url = ''http://sonarr'', apiKey = ''s''\<rparr>
             [\<lparr>seasonNumber = 2, hasFile = True, episodeFileId = 21\<rparr>,
              \<lparr>seasonNumber = 2, hasFile = True, episodeFileId = 22\<rparr>] []) = 2
   \<and> logs (handleDelete (seasonScenario episodes2 [21]) (handleScan (seasonScenario episodes2 [21]) initialState)) =
     [''[12:00:00] logScanComplete count=1'',
      ''[12:00:00] logScanFoundItems count=1'',
      ''[12:00:00] logScanStarted'',
      ''[12:00:00] logDeletionComplete successCount=0 total=1'',
      ''[12:00:00] logDeletionFailedSonarrMulti seriesName=Show name=Season 2'',
      ''[12:00:00] logDeletionFailedEpisode seriesName=Show name=Season 2 error=boom'',
      ''[12:00:00] logDeletionStarted count=1'',
      ''[12:00:00] logScanComplete count=1'',
      ''[12:00:00] logScanFoundItems count=1'',
      ''[12:00:00] logScanStarted'']
   \<and> logs (handleDelete (seasonScenario episodes2 [21, 22])
            (handleScan (seasonScenario episodes2 [21, 22]) initialState)) =
     [''[12:00:00] logScanComplete count=1'',
      ''[12:00:00] logScanFoundItems count=1'',
      ''[12:00:00] logScanStarted'',
      ''[12:00:00] logDeletionComplete successCount=0 total=1'',
      ''[12:00:00] logDeletionFailedSonarrMulti seriesName=Show name=Season 2'',
      ''[12:00:00] logDeletionFailedEpisode seriesName=Show name=Season 2 error=boom'',
      ''[12:00:00] logDeletionFailedEpisode seriesName=Show name=Season 2 error=boom'',
      ''[12:00:00] logDeletionStarted count=1'',
      ''[12:00:00] logScanComplete count=1'',
      ''[12:00:00] logScanFoundItems count=1'',
      ''[12:00:00] logScanStarted'']"
  by code_simp

section \<open>The log\<close>

lemma logGrows_refl: "logGrows e s s"
  by (simp add: logGrows_def)

lemma logGrows_trans:
  assumes "logGrows e s s1" and "logGrows e s1 s2"
  shows "logGrows e s s2"
proof -
  from assms(1) obtain a where a: "logs s1 = a @ logs s" "\<forall>l \<in> set a. \<exists>k m. l = stamp e k @ m"
    unfolding logGrows_def by blast
  from assms(2) obtain b where b: "logs s2 = b @ logs s1" "\<forall>l \<in> set b. \<exists>k m. l = stamp e k @ m"
    unfolding logGrows_def by blast
  have "logs s2 = (b @ a) @ logs s" using a(1) b(1) by simp
  moreover have "\<forall>l \<in> set (b @ a). \<exists>k m. l = stamp e k @ m" using a(2) b(2) by auto
  ultimately show ?thesis unfolding logGrows_def by blast
qed

lemma logGrows_same_logs: "logGrows e s s1 \<Longrightarrow> logs s2 = logs s1 \<Longrightarrow> logGrows e s s2"
  by (simp add: logGrows_def)

lemma logGrows_addLog:
  assumes "logGrows e s s1"
  shows "logGrows e s (addLog e m s1)"
proof -
  from assms obtain a where a: "logs s1 = a @ logs s" "\<forall>l \<in> set a. \<exists>k m. l = stamp e k @ m"
    unfolding logGrows_def by blast
  have "logs (addLog e m s1) = ((stamp e (ticks s1) @ m) # a) @ logs s"
    using a(1) by (simp add: addLog_def)
  moreover have "\<forall>l \<in> set ((stamp e (ticks s1) @ m) # a). \<exists>k m. l = stamp e k @ m"
    using a(2) by auto
  ultimately show ?thesis unfolding logGrows_def by blast
qed

lemma logGrows_issue: "logGrows e s s1 \<Longrightarrow> logGrows e s (issue c s1)"
  by (simp add: logGrows_def issue_def)

lemma logGrows_deleteEpisodes:
  "logGrows e s0 s \<Longrightarrow> logGrows e s0 (fst (deleteEpisodes e sn item eps (s, ok)))"
proof (induction eps arbitrary: s ok)
  case Nil
  then show ?case by simp
next
  case (Cons ep eps)
  show ?case
  proof (cases "deleteSonarrEpisodeFile e (calls s) sn (episodeFileId ep)")
    case None
    then show ?thesis
      using Cons.IH [OF logGrows_issue [OF Cons.prems]] by simp
  next
    case (Some msg)
    then show ?thesis
      using Cons.IH [OF logGrows_addLog [OF logGrows_issue [OF Cons.prems]]] by simp
  qed
qed

lemma logGrows_deleteMovie:
  "logGrows e s0 s \<Longrightarrow> logGrows e s0 (fst (snd (deleteMovie e st rm item (s, n))))"
  by (simp add: deleteMovie_def logGrows_addLog logGrows_issue split: option.splits)

lemma logGrows_deleteSeason:
  assumes "logGrows e s0 s"
  shows "logGrows e s0 (fst (snd (deleteSeason e st ss pm item (s, n))))"
proof -
  have ep: "logGrows e s0 (fst (deleteEpisodes e sn item eps (issue c s, True)))" for sn eps c
    by (rule logGrows_deleteEpisodes [OF logGrows_issue [OF assms]])
  have ep': "logGrows e s0 x" if "deleteEpisodes e sn item eps (issue c s, True) = (x, b)" for sn eps c x b
    using ep [of sn eps c] that by simp
  show ?thesis
    by (simp add: deleteSeason_def Let_def assms logGrows_addLog logGrows_issue ep'
             split: option.splits sum.splits prod.splits)
qed

lemma logGrows_deleteItem:
  "logGrows e s0 (fst ls) \<Longrightarrow> logGrows e s0 (fst (snd (deleteItem e st rm ss pm item ls)))"
  by (cases ls) (simp add: deleteItem_def logGrows_deleteMovie logGrows_deleteSeason)

lemma logGrows_deleteItems:
  "logGrows e s0 (fst ls) \<Longrightarrow> logGrows e s0 (fst (snd (deleteItems e st rm ss pm xs ls)))"
proof (induction xs arbitrary: ls)
  case Nil
  then show ?case by simp
next
  case (Cons x xs)
  obtain r ls' where step: "deleteItem e st rm ss pm x ls = (r, ls')"
    by (cases "deleteItem e st rm ss pm x ls") auto
  have g: "logGrows e s0 (fst ls')"
    using logGrows_deleteItem [OF Cons.prems, of st rm ss pm x] step by simp
  show ?case
  proof (cases r)
    case None
    with step Cons.IH [OF g] show ?thesis by simp
  next
    case (Some err)
    with step g show ?thesis by simp
  qed
qed

lemma logGrows_deleteBatch:
  assumes "logGrows e s0 s"
  shows "logGrows e s0 (fst (snd (deleteBatch e st xs (s, n))))"
proof -
  have "logGrows e s0 (fst (snd (deleteItems e st rm ss pm xs (s', n))))" if "logs s' = logs s" for rm ss pm s'
    using logGrows_deleteItems [of e s0 "(s', n)" st rm ss pm xs] logGrows_same_logs [OF assms that] by simp
  then show ?thesis
    using assms
    by (auto simp: deleteBatch_def fetchRadarrMovies_def fetchSonarrSeries_def fetchParentSeries_def
                   issue_def logGrows_def
             split: option.splits sum.splits prod.splits)
qed

lemma logGrows_handleScan:
  assumes "logGrows e s0 s"
  shows "logGrows e s0 (handleScan e s)"
proof (cases "case settings e of None \<Rightarrow> None | Some st \<Rightarrow> jellyfin st")
  case None
  then have "logs (handleScan e s) = logs s"
    by (simp add: handleScan_def)
  with assms show ?thesis by (rule logGrows_same_logs)
next
  case (Some jf)
  define s1 where "s1 = s\<lparr>isLoading := True, error := None, deletableItems := [], selectedItems := []\<rparr>"
  define s2 where "s2 = addLog e (t e ''logScanStarted'' []) s1"
  define s3 where "s3 = s2\<lparr>calls := calls s2 @ [GetItems [''Movie'', ''Season'']]\<rparr>"
  have g1: "logGrows e s0 s1"
    by (rule logGrows_same_logs [OF assms]) (simp add: s1_def)
  have g2: "logGrows e s0 s2"
    unfolding s2_def by (rule logGrows_addLog [OF g1])
  have g3: "logGrows e s0 s3"
    by (rule logGrows_same_logs [OF g2]) (simp add: s3_def)
  show ?thesis
  proof (cases "getItems e (calls s2) jf [''Movie'', ''Season'']")
    case (Inl errorMessage)
    have "logGrows e s0 (addLog e (t e ''logError'' [(''error'', PStr errorMessage)])
             (s3\<lparr>error := Some (t e ''logScanError'' [(''error'', PStr errorMessage)])\<rparr>))"
      by (rule logGrows_addLog, rule logGrows_same_logs [OF g3]) simp
    then have "logGrows e s0 ((addLog e (t e ''logError'' [(''error'', PStr errorMessage)])
             (s3\<lparr>error := Some (t e ''logScanError'' [(''error'', PStr errorMessage)])\<rparr>))\<lparr>isLoading := False\<rparr>)"
      by (rule logGrows_same_logs) simp
    then show ?thesis
      using Some Inl by (simp add: handleScan_def Let_def s1_def s2_def s3_def)
  next
    case (Inr allItems)
    define s5 where "s5 = addLog e (t e ''logScanFoundItems'' [(''count'', PNum (int (length allItems)))]) s3"
    have g5: "logGrows e s0 s5"
      unfolding s5_def by (rule logGrows_addLog [OF g3])
    have step: "logGrows e s0 ((addLog e m (s5\<lparr>deletableItems := xs, selectedItems := ys\<rparr>))\<lparr>isLoading := False\<rparr>)"
      for m xs ys
      by (rule logGrows_same_logs [OF logGrows_addLog [OF logGrows_same_logs [OF g5]]]) simp_all
    show ?thesis
      using Some Inr step by (simp add: handleScan_def Let_def s1_def s2_def s3_def s5_def)
  qed
qed

lemma logGrows_handleDelete: "logGrows e s (handleDelete e s)"
proof (cases "settings e")
  case None
  then show ?thesis by (simp add: handleDelete_def logGrows_refl)
next
  case (Some st)
  show ?thesis
  proof (cases "length (selectedItems s) = 0")
    case True
    with Some show ?thesis by (simp add: handleDelete_def logGrows_refl)
  next
    case False
    define s2 where "s2 = addLog e (t e ''logDeletionStarted'' [(''count'', PNum (int (length (selectedItems s))))])
                            (s\<lparr>isModalOpen := False, isLoading := True\<rparr>)"
    define xs where "xs = filter (\<lambda>item. ItemId item \<in> set (selectedItems s)) (deletableItems s)"
    obtain thrown s3 n where run: "deleteBatch e st xs (s2, 0) = (thrown, s3, n)"
      by (cases "deleteBatch e st xs (s2, 0)") auto
    have g2: "logGrows e s s2"
      unfolding s2_def by (rule logGrows_addLog, rule logGrows_same_logs [OF logGrows_refl]) simp
    have g3: "logGrows e s s3"
      using logGrows_deleteBatch [OF g2, of st xs 0] run by simp
    define s4 where "s4 = (case thrown of None \<Rightarrow> s3
                           | Some errorMessage \<Rightarrow>
                               addLog e (t e ''logError'' [(''error'', PStr errorMessage)])
                                 (s3\<lparr>error := Some (t e ''logDeletionCriticalError''
                                                      [(''error'', PStr errorMessage)])\<rparr>))"
    have g4: "logGrows e s s4"
    proof (cases thrown)
      case None
      with g3 show ?thesis by (simp add: s4_def)
    next
      case (Some errorMessage)
      have "logGrows e s (addLog e (t e ''logError'' [(''error'', PStr errorMessage)])
                                 (s3\<lparr>error := Some (t e ''logDeletionCriticalError''
                                                      [(''error'', PStr errorMessage)])\<rparr>))"
        by (rule logGrows_addLog, rule logGrows_same_logs [OF g3]) simp
      with Some show ?thesis by (simp add: s4_def)
    qed
    have g5: "logGrows e s ((addLog e m s4)\<lparr>isLoading := False\<rparr>)" for m
      by (rule logGrows_same_logs [OF logGrows_addLog [OF g4]]) simp
    show ?thesis
      using Some False run logGrows_handleScan [OF g5]
      by (simp add: handleDelete_def Let_def s2_def [symmetric] xs_def [symmetric] s4_def [symmetric])
  qed
qed

lemma deleteItems_append:
  "fst (deleteItems e st rm ss pm xs ls) = None \<Longrightarrow>
   deleteItems e st rm ss pm (xs @ ys) ls = deleteItems e st rm ss pm ys (snd (deleteItems e st rm ss pm xs ls))"
proof (induction xs arbitrary: ls)
  case Nil
  then show ?case by simp
next
  case (Cons x xs)
  obtain r ls' where step: "deleteItem e st rm ss pm x ls = (r, ls')"
    by (cases "deleteItem e st rm ss pm x ls") auto
  show ?case
  proof (cases r)
    case None
    with step Cons.prems Cons.IH [of ls'] show ?thesis by simp
  next
    case (Some err)
    with step Cons.prems show ?thesis by simp
  qed
qed

lemma logGrows_length: "logGrows e s s' \<Longrightarrow> length (logs s) \<le> length (logs s')"
  by (auto simp: logGrows_def)

lemma deleteMovie_logs_longer:
  "fst (deleteMovie e st rm item (s, n)) = None \<Longrightarrow>
   length (logs s) < length (logs (fst (snd (deleteMovie e st rm item (s, n)))))"
  by (auto simp: deleteMovie_def addLog_def issue_def split: option.splits)

lemma deleteSeason_logs_longer:
  assumes "fst (deleteSeason e st ss pm item (s, n)) = None"
  shows "length (logs s) < length (logs (fst (snd (deleteSeason e st ss pm item (s, n)))))"
proof -
  have ep: "length (logs s) < length (logs (addLog e m x))"
    if "deleteEpisodes e sn item eps (issue c s, True) = (x, b)" for sn eps c x b m
  proof -
    have "logGrows e s (fst (deleteEpisodes e sn item eps (issue c s, True)))"
      by (rule logGrows_deleteEpisodes [OF logGrows_issue [OF logGrows_refl]])
    with that have "length (logs s) \<le> length (logs x)"
      using logGrows_length by fastforce
    then show ?thesis by (simp add: addLog_def)
  qed
  have al: "length (logs s) < length (logs (addLog e m s))" for m
    by (simp add: addLog_def)
  have al': "length (logs s) < length (logs (addLog e m (issue c s)))" for m c
    by (simp add: addLog_def issue_def)
  show ?thesis
    using assms
    by (simp add: deleteSeason_def Let_def al al' ep split: option.splits sum.splits prod.splits)
qed

text \<open>
  C7, as amended. A deletion run only puts lines in front of the log it found, each
  with a time stamp. The lines written for later items of the batch stand in front of
  the lines written for earlier items: the log is ordered newest first. Every Movie or
  Season item whose step ends without an exception has written at least one line.
\<close>
theorem log_newest_first:
  "(\<exists>new. logs (handleDelete e s) = new @ logs s \<and> (\<forall>l \<in> set new. \<exists>k m. l = stamp e k @ m))
   \<and> (fst (deleteItems e st rm ss pm xs ls) = None \<longrightarrow>
        (\<exists>nx ny. logs (fst (snd (deleteItems e st rm ss pm xs ls))) = nx @ logs (fst ls)
           \<and> logs (fst (snd (deleteItems e st rm ss pm (xs @ ys) ls))) = ny @ nx @ logs (fst ls)
           \<and> (\<forall>l \<in> set (ny @ nx). \<exists>k m. l = stamp e k @ m)))
   \<and> ((ItemType item = ''Movie'' \<or> ItemType item = ''Season'')
        \<and> fst (deleteItem e st rm ss pm item ls) = None \<longrightarrow>
        length (logs (fst ls)) < length (logs (fst (snd (deleteItem e st rm ss pm item ls)))))"
proof -
  have a: "\<exists>new. logs (handleDelete e s) = new @ logs s \<and> (\<forall>l \<in> set new. \<exists>k m. l = stamp e k @ m)"
    using logGrows_handleDelete [of e s] by (simp add: logGrows_def)
  have b: "\<exists>nx ny. logs (fst (snd (deleteItems e st rm ss pm xs ls))) = nx @ logs (fst ls)
           \<and> logs (fst (snd (deleteItems e st rm ss pm (xs @ ys) ls))) = ny @ nx @ logs (fst ls)
           \<and> (\<forall>l \<in> set (ny @ nx). \<exists>k m. l = stamp e k @ m)"
    if ok: "fst (deleteItems e st rm ss pm xs ls) = None"
  proof -
    let ?l1 = "snd (deleteItems e st rm ss pm xs ls)"
    have "logGrows e (fst ls) (fst ?l1)"
      by (rule logGrows_deleteItems [OF logGrows_refl])
    then obtain nx where nx: "logs (fst ?l1) = nx @ logs (fst ls)" "\<forall>l \<in> set nx. \<exists>k m. l = stamp e k @ m"
      unfolding logGrows_def by blast
    have "logGrows e (fst ?l1) (fst (snd (deleteItems e st rm ss pm ys ?l1)))"
      by (rule logGrows_deleteItems [OF logGrows_refl])
    then obtain ny where ny: "logs (fst (snd (deleteItems e st rm ss pm ys ?l1))) = ny @ logs (fst ?l1)"
      "\<forall>l \<in> set ny. \<exists>k m. l = stamp e k @ m"
      unfolding logGrows_def by blast
    have "logs (fst (snd (deleteItems e st rm ss pm (xs @ ys) ls))) = ny @ nx @ logs (fst ls)"
      using deleteItems_append [OF ok, of ys] ny(1) nx(1) by simp
    moreover have "\<forall>l \<in> set (ny @ nx). \<exists>k m. l = stamp e k @ m"
      using nx(2) ny(2) by auto
    ultimately show ?thesis using nx(1) by blast
  qed
  have c: "length (logs (fst ls)) < length (logs (fst (snd (deleteItem e st rm ss pm item ls))))"
    if "ItemType item = ''Movie'' \<or> ItemType item = ''Season''"
      and "fst (deleteItem e st rm ss pm item ls) = None"
    using that
    by (cases ls) (auto simp: deleteItem_def deleteMovie_logs_longer deleteSeason_logs_longer split: if_splits)
  from a b c show ?thesis by blast
qed

theorem log_newest_first_witness:
  "fst (deleteItems twoMovies settings0 [\<lparr>movie_id = 1, tmdbId = 101\<rparr>, \<lparr>movie_id = 2, tmdbId = 102\<rparr>] [] []
          [movie ''a'' ''A'' 10 ''101''] (initialState, 0)) = None
   \<and> (\<exists>nx ny.
         logs (fst (snd (deleteItems twoMovies settings0
                 [\<lparr>movie_id = 1, tmdbId = 101\<rparr>, \<lparr>movie_id = 2, tmdbId = 102\<rparr>] [] []
                 [movie ''a'' ''A'' 10 ''101''] (initialState, 0)))) = nx @ logs initialState
         \<and> logs (fst (snd (deleteItems twoMovies settings0
                 [\<lparr>movie_id = 1, tmdbId = 101\<rparr>, \<lparr>movie_id = 2, tmdbId = 102\<rparr>] [] []
                 ([movie ''a'' ''A'' 10 ''101''] @ [movie ''b'' ''B'' 10 ''102'']) (initialState, 0))))
             = ny @ nx @ logs initialState
         \<and> (\<forall>l \<in> set (ny @ nx). \<exists>k m. l = stamp twoMovies k @ m))
   \<and> length (logs initialState)
       < length (logs (fst (snd (deleteItem twoMovies settings0
                   [\<lparr>movie_id = 1, tmdbId = 101\<rparr>, \<lparr>movie_id = 2, tmdbId = 102\<rparr>] [] []
                   (movie ''a'' ''A'' 10 ''101'') (initialState, 0)))))"
proof -
  let ?rm = "[\<lparr>movie_id = 1, tmdbId = 101\<rparr>, \<lparr>movie_id = 2, tmdbId = 102\<rparr>]"
  have h1: "fst (deleteItems twoMovies settings0 ?rm [] [] [movie ''a'' ''A'' 10 ''101''] (initialState, 0)) = None"
    by code_simp
  have h2: "ItemType (movie ''a'' ''A'' 10 ''101'') = ''Movie''"
    by (simp add: movie_def)
  have h3: "fst (deleteItem twoMovies settings0 ?rm [] [] (movie ''a'' ''A'' 10 ''101'') (initialState, 0)) = None"
    by code_simp
  show ?thesis
    using log_newest_first [of twoMovies initialState settings0 ?rm "[]" "[]" "[movie ''a'' ''A'' 10 ''101'']"
            "(initialState, 0)" "[movie ''b'' ''B'' 10 ''102'']" "movie ''a'' ''A'' 10 ''101''"]
          h1 h2 h3
    by simp
qed

text \<open>
  Against C7 as stated: two movies A and B are deleted in this order (see the
  requests), and the line of A stands after the line of B in the log.
\<close>
theorem log_order_counterexample:
  "calls (handleDelete twoMovies (handleScan twoMovies initialState)) =
     [GetItems [''Movie'', ''Season''], GetRadarrMovies, GetSonarrSeries,
      DeleteRadarrMovie 1, DeleteRadarrMovie 2, GetItems [''Movie'', ''Season'']]
   \<and> logs (handleDelete twoMovies (handleScan twoMovies initialState)) =
     [''[12:00:00] logScanComplete count=2'',
      ''[12:00:00] logScanFoundItems count=2'',
      ''[12:00:00] logScanStarted'',
      ''[12:00:00] logDeletionComplete successCount=2 total=2'',
      ''[12:00:00] logDeletionSuccessRadarr name=B'',
      ''[12:00:00] logDeletionSuccessRadarr name=A'',
      ''[12:00:00] logDeletionStarted count=2'',
      ''[12:00:00] logScanComplete count=2'',
      ''[12:00:00] logScanFoundItems count=2'',
      ''[12:00:00] logScanStarted'']"
  by code_simp

section \<open>Movie items\<close>

lemma find_NaN: "parseInt tmdb = None \<Longrightarrow> find (\<lambda>m. Some (tmdbId m) = parseInt tmdb) radarrMovies = None"
  by (induction radarrMovies) auto

text \<open>
  Against C4 as stated, the scenario with the external identifier \<open>tt1\<close>: the movie is eligible, but
  \<open>parseInt\<close> of \<open>tt1\<close> is NaN, no record matches, no deletion is requested, and
  the outcome is the informational line \<open>logDeletionInfoRadarr\<close> with 0 successes.
\<close>
theorem movie_tt1_counterexample:
  "deletableItems (handleScan (oneMovie 10 ''tt1'' 1) initialState) = [movie ''a'' ''A'' 10 ''tt1'']
   \<and> parseInt ''tt1'' = None
   \<and> calls (handleDelete (oneMovie 10 ''tt1'' 1) (handleScan (oneMovie 10 ''tt1'' 1) initialState)) =
     [GetItems [''Movie'', ''Season''], GetRadarrMovies, GetSonarrSeries, GetItems [''Movie'', ''Season'']]
   \<and> logs (handleDelete (oneMovie 10 ''tt1'' 1) (handleScan (oneMovie 10 ''tt1'' 1) initialState)) =
     [''[12:00:00] logScanComplete count=1'',
      ''[12:00:00] logScanFoundItems count=1'',
      ''[12:00:00] logScanStarted'',
      ''[12:00:00] logDeletionComplete successCount=0 total=1'',
      ''[12:00:00] logDeletionInfoRadarr name=A'',
      ''[12:00:00] logDeletionStarted count=1'',
      ''[12:00:00] logScanComplete count=1'',
      ''[12:00:00] logScanFoundItems count=1'',
      ''[12:00:00] logScanStarted'']"
  by code_simp

text \<open>
  C4, as amended. Under the thresholds 7 and 28, a movie created 10 days ago whose
  external identifier is the numeral \<open>603\<close>, with the fetched records
  \<open>[{id: 1, tmdbId: 603}]\<close>: the movie is eligible, the lookup by
  \<open>tmdbId === parseInt(...)\<close> finds record 1, exactly one deletion is requested, and
  the outcome is the line \<open>logDeletionSuccessRadarr\<close> with 1 success out of 1.
\<close>
theorem movie_numeric_id_deleted:
  "movieRetentionDays (settings (oneMovie 10 ''603'' 603)) = 7
   \<and> tvSeasonRetentionDays (settings (oneMovie 10 ''603'' 603)) = 28
   \<and> deletableItems (handleScan (oneMovie 10 ''603'' 603) initialState) = [movie ''a'' ''A'' 10 ''603'']
   \<and> find (\<lambda>m. Some (tmdbId m) = parseInt ''603'') [\<lparr>movie_id = 1, tmdbId = 603\<rparr>]
       = Some \<lparr>movie_id = 1, tmdbId = 603\<rparr>
   \<and> calls (handleDelete (oneMovie 10 ''603'' 603) (handleScan (oneMovie 10 ''603'' 603) initialState)) =
     [GetItems [''Movie'', ''Season''], GetRadarrMovies, GetSonarrSeries, DeleteRadarrMovie 1,
      GetItems [''Movie'', ''Season'']]
   \<and> logs (handleDelete (oneMovie 10 ''603'' 603) (handleScan (oneMovie 10 ''603'' 603) initialState)) =
     [''[12:00:00] logScanComplete count=1'',
      ''[12:00:00] logScanFoundItems count=1'',
      ''[12:00:00] logScanStarted'',
      ''[12:00:00] logDeletionComplete successCount=1 total=1'',
      ''[12:00:00] logDeletionSuccessRadarr name=A'',
      ''[12:00:00] logDeletionStarted count=1'',
      ''[12:00:00] logScanComplete count=1'',
      ''[12:00:00] logScanFoundItems count=1'',
      ''[12:00:00] logScanStarted'']"
  by code_simp

text \<open>
  C1. Three movies A, B, C, each with a matching record; the deletion of the record of B
  is rejected. The run deletes A, asks for the deletion of B, and then leaves the loop
  through the outer catch: one line for A, one run-level error line, no request and no
  line for C, and a closing count of 1 success out of 3.
\<close>
theorem movie_failure_aborts_batch:
  "calls (handleDelete threeMovies (handleScan threeMovies initialState)) =
     [GetItems [''Movie'', ''Season''], GetRadarrMovies, GetSonarrSeries,
      DeleteRadarrMovie 1, DeleteRadarrMovie 2, GetItems [''Movie'', ''Season'']]
   \<and> logs (handleDelete threeMovies (handleScan threeMovies initialState)) =
     [''[12:00:00] logScanComplete count=3'',
      ''[12:00:00] logScanFoundItems count=3'',
      ''[12:00:00] logScanStarted'',
      ''[12:00:00] logDeletionComplete successCount=1 total=3'',
      ''[12:00:00] logError error=boom'',
      ''[12:00:00] logDeletionSuccessRadarr name=A'',
      ''[12:00:00] logDeletionStarted count=3'',
      ''[12:00:00] logScanComplete count=3'',
      ''[12:00:00] logScanFoundItems count=3'',
      ''[12:00:00] logScanStarted'']"
  by code_simp

end
